theory Spec2Isabelle
  imports Main
begin

section \<open>Connection pool (src/utils/connection-pool.ts)\<close>

subsection \<open>Data model\<close>

text \<open>
  The Express response object of a connection, reduced to what the pool reads of it:
  the flag \<open>headersSent\<close>, and the message of the error a call of \<open>end()\<close> throws,
  if it throws.
\<close>

record Response =
  headersSent :: bool
  end_throws :: "string option"

text \<open>
  \<open>SSEConnection\<close> (src/types/http-transport): dates are milliseconds since the epoch,
  \<open>clientInfo\<close> is reduced to its \<open>version\<close>, the only part the pool reads. The opaque
  \<open>transport\<close> is never read by the pool and is left out. \<open>response\<close> is optional
  because \<open>removeConnection\<close> tests it for truthiness.
\<close>

record SSEConnection =
  conn_id :: string
  clientVersion :: string
  connectedAt :: int
  lastActivity :: int
  response :: "Response option"
  isActive :: bool

text \<open>
  What \<open>addConnection\<close> throws: a plain \<open>Error\<close> with a message, or
  \<open>ConnectionPoolFullError(maxConnections, {maxConnections, currentConnections})\<close>.
\<close>

datatype pool_error =
  Error string
  | ConnectionPoolFullError nat nat nat

datatype event_kind = Connected | Disconnected | ErrorEvent | Timeout

text \<open>
  The optional \<open>details\<close> text of an event is one of three templates; the model keeps
  the value each template is filled with: \<open>error.message\<close>, \<open>Client: ${version}\<close>,
  \<open>Timeout after ${ms}ms\<close>.
\<close>

datatype event_details =
  ErrorMessage pool_error
  | ClientDetails string
  | TimeoutAfter int

record ConnectionEvent =
  connectionId :: string
  event :: event_kind
  timestamp :: int
  details :: "event_details option"

text \<open>
  \<open>HTTPTransportConfig\<close>: the pool reads \<open>maxConnections\<close> (a count),
  \<open>connectionTimeout\<close> and \<open>keepAliveTimeout\<close> (milliseconds).
\<close>

record HTTPTransportConfig =
  maxConnections :: nat
  connectionTimeout :: int
  keepAliveTimeout :: int

text \<open>
  The private state of \<open>SSEConnectionPool\<close>. The \<open>Map\<close> is an association list in
  insertion order (the order a JavaScript \<open>Map\<close> iterates in). \<open>cleanupInterval\<close>
  records whether the periodic timer is still armed.
\<close>

record pool =
  connections :: "(string \<times> SSEConnection) list"
  connectionHistory :: "ConnectionEvent list"
  config :: HTTPTransportConfig
  cleanupInterval :: bool
  isShuttingDown :: bool

subsection \<open>The JavaScript Map operations used by the pool\<close>

fun map_set :: "string \<Rightarrow> 'v \<Rightarrow> (string \<times> 'v) list \<Rightarrow> (string \<times> 'v) list" where
  "map_set k v [] = [(k, v)]"
| "map_set k v ((k', v') # m) = (if k' = k then (k, v) # m else (k', v') # map_set k v m)"

definition map_get :: "(string \<times> 'v) list \<Rightarrow> string \<Rightarrow> 'v option" where
  "map_get m k = map_of m k"

definition map_delete :: "string \<Rightarrow> (string \<times> 'v) list \<Rightarrow> (string \<times> 'v) list" where
  "map_delete k m = filter (\<lambda>kv. fst kv \<noteq> k) m"

definition map_size :: "(string \<times> 'v) list \<Rightarrow> nat" where
  "map_size m = length m"

definition map_keys :: "(string \<times> 'v) list \<Rightarrow> string list" where
  "map_keys m = map fst m"

subsection \<open>Operations\<close>

definition new_pool :: "HTTPTransportConfig \<Rightarrow> pool" where
  "new_pool cfg =
     \<lparr>connections = [], connectionHistory = [], config = cfg,
      cleanupInterval = True, isShuttingDown = False\<rparr>"

text \<open>\<open>addConnectionEvent\<close>: push, then keep only the last 1000 events.\<close>

definition addConnectionEvent :: "ConnectionEvent \<Rightarrow> pool \<Rightarrow> pool" where
  "addConnectionEvent ev p =
     (let h = connectionHistory p @ [ev]
      in p\<lparr>connectionHistory := (if length h > 1000 then drop (length h - 1000) h else h)\<rparr>)"

text \<open>
  \<open>addConnection\<close>. The result pairs what the call throws (\<open>None\<close> when it returns
  normally) with the pool afterwards. \<open>now\<close> is the value of \<open>new Date()\<close>. The only
  \<open>await\<close> of the function is in the branch that throws \<open>ConnectionPoolFullError\<close>, so
  the test of the size and the insertion are never interleaved with another call.
\<close>

definition addConnection :: "SSEConnection \<Rightarrow> int \<Rightarrow> pool \<Rightarrow> pool_error option \<times> pool" where
  "addConnection connection now p =
     (if isShuttingDown p then (Some (Error ''Connection pool is shutting down''), p)
      else if map_size (connections p) \<ge> maxConnections (config p) then
        (let error = ConnectionPoolFullError (maxConnections (config p))
                       (maxConnections (config p)) (map_size (connections p))
         in (Some error,
             addConnectionEvent
               \<lparr>connectionId = conn_id connection, event = ErrorEvent, timestamp = now,
                details = Some (ErrorMessage error)\<rparr> p))
      else
        (None,
         addConnectionEvent
           \<lparr>connectionId = conn_id connection, event = Connected, timestamp = now,
            details = Some (ClientDetails (clientVersion connection))\<rparr>
           (p\<lparr>connections := map_set (conn_id connection) connection (connections p)\<rparr>)))"

text \<open>
  The body of the \<open>try\<close> block of \<open>removeConnection\<close>: \<open>end()\<close> is called when there
  is a response whose headers are not sent yet; the value is what the block throws.
\<close>

definition close_response :: "SSEConnection \<Rightarrow> pool_error option" where
  "close_response connection =
     (case response connection of
        None \<Rightarrow> None
      | Some r \<Rightarrow>
          if \<not> headersSent r then map_option Error (end_throws r) else None)"

text \<open>
  \<open>removeConnection\<close>: an unknown id returns at once; otherwise whatever the \<open>try\<close>
  block throws is caught (and only logged), the entry is deleted and a
  \<open>disconnected\<close> event without details is recorded.
\<close>

definition removeConnection :: "string \<Rightarrow> int \<Rightarrow> pool \<Rightarrow> pool_error option \<times> pool" where
  "removeConnection cid now p =
     (case map_get (connections p) cid of
        None \<Rightarrow> (None, p)
      | Some connection \<Rightarrow>
          (case close_response connection of
             Some caught \<Rightarrow> None
           | None \<Rightarrow> None,
           addConnectionEvent
             \<lparr>connectionId = cid, event = Disconnected, timestamp = now, details = None\<rparr>
             (p\<lparr>connections := map_delete cid (connections p)\<rparr>)))"

definition getConnection :: "string \<Rightarrow> pool \<Rightarrow> SSEConnection option" where
  "getConnection cid p = map_get (connections p) cid"

definition updateConnectionActivity :: "string \<Rightarrow> int \<Rightarrow> pool \<Rightarrow> pool" where
  "updateConnectionActivity cid now p =
     (case map_get (connections p) cid of
        None \<Rightarrow> p
      | Some connection \<Rightarrow>
          p\<lparr>connections := map_set cid (connection\<lparr>lastActivity := now\<rparr>) (connections p)\<rparr>)"

text \<open>
  \<open>cleanupInactiveConnections\<close>. The first loop walks the map in order, collects the
  ids that timed out and records a \<open>timeout\<close> event for each; the second loop removes
  them one after the other. \<open>clock i\<close> is the \<open>new Date()\<close> of the \<open>i\<close>-th removal.
\<close>

fun collect_timeouts ::
  "int \<Rightarrow> int \<Rightarrow> (string \<times> SSEConnection) list \<Rightarrow> string list \<times> pool \<Rightarrow> string list \<times> pool" where
  "collect_timeouts now timeoutMs [] (connectionsToRemove, p) = (connectionsToRemove, p)"
| "collect_timeouts now timeoutMs ((cid, connection) # rest) (connectionsToRemove, p) =
     (let timeSinceLastActivity = now - lastActivity connection
      in if timeSinceLastActivity > timeoutMs then
           collect_timeouts now timeoutMs rest
             (connectionsToRemove @ [cid],
              addConnectionEvent
                \<lparr>connectionId = cid, event = Timeout, timestamp = now,
                 details = Some (TimeoutAfter timeSinceLastActivity)\<rparr> p)
         else collect_timeouts now timeoutMs rest (connectionsToRemove, p))"

fun remove_all :: "string list \<Rightarrow> nat \<Rightarrow> (nat \<Rightarrow> int) \<Rightarrow> pool \<Rightarrow> pool" where
  "remove_all [] i clock p = p"
| "remove_all (cid # cids) i clock p =
     remove_all cids (Suc i) clock (snd (removeConnection cid (clock i) p))"

definition cleanupInactiveConnections :: "int \<Rightarrow> (nat \<Rightarrow> int) \<Rightarrow> pool \<Rightarrow> nat \<times> pool" where
  "cleanupInactiveConnections now clock p =
     (let (connectionsToRemove, p1) =
            collect_timeouts now (connectionTimeout (config p)) (connections p) ([], p)
      in (length connectionsToRemove, remove_all connectionsToRemove 0 clock p1))"

text \<open>
  \<open>shutdown\<close>: set the flag, clear the timer, start one removal per current id and
  wait with \<open>Promise.allSettled\<close>, which never rejects. \<open>removeConnection\<close> contains no
  \<open>await\<close>, so each removal runs to completion when it is started.
\<close>

definition shutdown :: "(nat \<Rightarrow> int) \<Rightarrow> pool \<Rightarrow> pool_error option \<times> pool" where
  "shutdown clock p =
     (let p1 = p\<lparr>isShuttingDown := True, cleanupInterval := False\<rparr>;
          connectionIds = map_keys (connections p1)
      in (None, remove_all connectionIds 0 clock p1))"

text \<open>Calls a client of the pool can make, and a run of such calls on a pool.\<close>

datatype pool_call =
  AddConnection SSEConnection int
  | RemoveConnection string int
  | UpdateConnectionActivity string int
  | CleanupInactiveConnections int "nat \<Rightarrow> int"
  | Shutdown "nat \<Rightarrow> int"

fun call :: "pool_call \<Rightarrow> pool \<Rightarrow> pool" where
  "call (AddConnection c now) p = snd (addConnection c now p)"
| "call (RemoveConnection cid now) p = snd (removeConnection cid now p)"
| "call (UpdateConnectionActivity cid now) p = updateConnectionActivity cid now p"
| "call (CleanupInactiveConnections now clock) p = snd (cleanupInactiveConnections now clock p)"
| "call (Shutdown clock) p = snd (shutdown clock p)"

fun calls :: "pool_call list \<Rightarrow> pool \<Rightarrow> pool" where
  "calls [] p = p"
| "calls (c # cs) p = calls cs (call c p)"

fun is_shutdown :: "pool_call \<Rightarrow> bool" where
  "is_shutdown (Shutdown clock) = True"
| "is_shutdown other = False"


section \<open>Tool execution (src/utils/tool-execution.ts)\<close>

subsection \<open>JavaScript values\<close>

text \<open>
  Raw tool arguments, handler results and the payloads carried by errors are untyped
  JavaScript values. The model has the JSON values, \<open>undefined\<close> and \<open>bigint\<close>.
\<close>

datatype js_value =
  JUndefined
  | JNull
  | JBool bool
  | JNumber int
  | JString string
  | JBigInt int
  | JArray "js_value list"
  | JObject "(string \<times> js_value) list"

fun typeof :: "js_value \<Rightarrow> string" where
  "typeof JUndefined = ''undefined''"
| "typeof JNull = ''object''"
| "typeof (JBool b) = ''boolean''"
| "typeof (JNumber n) = ''number''"
| "typeof (JString s) = ''string''"
| "typeof (JBigInt n) = ''bigint''"
| "typeof (JArray xs) = ''object''"
| "typeof (JObject kvs) = ''object''"

text \<open>
  Property read \<open>v.k\<close> on a non-null object, for the names this code reads
  (\<open>workflowId\<close>, \<open>name\<close>, \<open>status\<close>, \<open>data\<close>): the own property, else \<open>undefined\<close>.
\<close>

fun get_prop :: "js_value \<Rightarrow> string \<Rightarrow> js_value" where
  "get_prop (JObject kvs) k = (case map_of kvs k of Some v \<Rightarrow> v | None \<Rightarrow> JUndefined)"
| "get_prop v k = JUndefined"

text \<open>
  \<open>JSON.stringify\<close> throws a \<open>TypeError\<close> on a value that contains a \<open>bigint\<close>
  (as it does on a cyclic structure, which this datatype cannot hold).
\<close>

fun json_serialisable :: "js_value \<Rightarrow> bool" where
  "json_serialisable (JBigInt n) = False"
| "json_serialisable (JArray xs) = list_all json_serialisable xs"
| "json_serialisable (JObject kvs) = list_all json_serialisable (map snd kvs)"
| "json_serialisable v = True"

text \<open>
  A string-valued expression of the source: a string, the text \<open>JSON.stringify\<close>
  returns for a value, or \<open>undefined\<close> (what \<open>JSON.stringify(undefined)\<close> returns).
\<close>

datatype js_text = Text string | JsonOf js_value | NoText

subsection \<open>Errors and thrown values\<close>

text \<open>
  The \<open>details\<close> payload of an \<open>MCPServerError\<close>:
  \<open>{toolName, originalError, args}\<close>, \<open>{endpoint, statusCode, responseBody}\<close>, or any
  other value.
\<close>

datatype error_details =
  ToolExecutionDetails string string js_value
  | N8NAPIDetails string js_value js_text
  | OtherDetails js_value

record MCPServerError =
  err_code :: string
  err_message :: string
  err_details :: error_details

definition ToolExecutionError :: "string \<Rightarrow> error_details \<Rightarrow> MCPServerError" where
  "ToolExecutionError toolName d =
     \<lparr>err_code = ''TOOL_EXECUTION_ERROR'',
      err_message = ''Tool execution failed: '' @ toolName, err_details = d\<rparr>"

definition N8NAPIError :: "string \<Rightarrow> error_details \<Rightarrow> MCPServerError" where
  "N8NAPIError endpoint d =
     \<lparr>err_code = ''N8N_API_ERROR'',
      err_message = ''N8N API request failed: '' @ endpoint, err_details = d\<rparr>"

text \<open>
  What a \<open>catch\<close> clause can receive: an instance of \<open>MCPServerError\<close>; another
  \<open>Error\<close> instance, with its message and its \<open>response\<close> property when it has one;
  a value that is not an \<open>Error\<close> and has a string conversion, given by what
  \<open>String(value)\<close> returns; or a value that is not an \<open>Error\<close> and on which
  \<open>String(value)\<close> throws a \<open>TypeError\<close> (an object without prototype, as
  \<open>Object.create(null)\<close>, or one whose \<open>toString\<close> throws).
\<close>

datatype thrown =
  ThrownMCP MCPServerError
  | ThrownError string "js_value option"
  | ThrownValue string
  | ThrownUnprintable

definition TypeError :: "string \<Rightarrow> thrown" where
  "TypeError msg = ThrownError msg None"

text \<open>
  The state of a promise when the code awaiting it stops waiting: resolved, rejected, or
  still pending (without a timer the \<open>await\<close> never resumes).
\<close>

datatype 'a promise = Resolved 'a | Rejected thrown | Pending

text \<open>What a wrapper does besides returning: invoking the operation, and sleeping.\<close>

datatype effect = Invoke nat | Delay nat

subsection \<open>Responses\<close>

datatype response_metadata =
  Data js_value
  | ErrorInfo string error_details

record ToolResponse =
  content_text :: js_text
  isError :: bool
  metadata :: response_metadata

definition JSON_stringify :: "js_value \<Rightarrow> thrown + js_text" where
  "JSON_stringify v =
     (if json_serialisable v then Inr (if v = JUndefined then NoText else JsonOf v)
      else Inl (TypeError ''Do not know how to serialize a BigInt''))"

subsection \<open>Type guards (src/types/mcp-server.js)\<close>

definition isListWorkflowsArgs :: "js_value \<Rightarrow> bool" where
  "isListWorkflowsArgs args \<longleftrightarrow> typeof args = ''object'' \<and> args \<noteq> JNull"

definition isGetWorkflowArgs :: "js_value \<Rightarrow> bool" where
  "isGetWorkflowArgs args \<longleftrightarrow>
     typeof args = ''object'' \<and> args \<noteq> JNull \<and> typeof (get_prop args ''workflowId'') = ''string''"

definition isCreateWorkflowArgs :: "js_value \<Rightarrow> bool" where
  "isCreateWorkflowArgs args \<longleftrightarrow>
     typeof args = ''object'' \<and> args \<noteq> JNull \<and> typeof (get_prop args ''name'') = ''string''"

subsection \<open>The wrappers\<close>

text \<open>
  \<open>createMCPError\<close>; \<open>Inl\<close> is what the call itself throws, which happens when
  \<open>JSON.stringify(response.data)\<close> or \<open>String(error)\<close> does.
\<close>

definition createMCPError :: "string \<Rightarrow> thrown \<Rightarrow> js_value \<Rightarrow> thrown + MCPServerError" where
  "createMCPError toolName error args =
     (case error of
        ThrownMCP e \<Rightarrow> Inr e
      | ThrownError msg resp \<Rightarrow>
          (case resp of
             Some r \<Rightarrow>
               if typeof r = ''object'' \<and> r \<noteq> JNull then
                 (case (case get_prop r ''data'' of
                          JString s \<Rightarrow> Inr (Text s)
                        | d \<Rightarrow> JSON_stringify d) of
                    Inl exn \<Rightarrow> Inl exn
                  | Inr responseBody \<Rightarrow>
                      Inr (N8NAPIError toolName
                             (N8NAPIDetails toolName (get_prop r ''status'') responseBody)))
               else Inr (ToolExecutionError toolName (ToolExecutionDetails toolName msg args))
           | None \<Rightarrow> Inr (ToolExecutionError toolName (ToolExecutionDetails toolName msg args)))
      | ThrownValue s \<Rightarrow>
          Inr (ToolExecutionError toolName (ToolExecutionDetails toolName s args))
      | ThrownUnprintable \<Rightarrow> Inl (TypeError ''Cannot convert object to primitive value''))"

text \<open>
  \<open>safeToolExecution\<close>: the handler is called once; here it returns a promise of a
  \<open>ToolResponse\<close>.
\<close>

definition safeToolExecution ::
  "string \<Rightarrow> js_value \<Rightarrow> (js_value \<Rightarrow> ToolResponse promise) \<Rightarrow> ToolResponse promise" where
  "safeToolExecution toolName args handler =
     (case handler args of
        Resolved result \<Rightarrow> Resolved result
      | Pending \<Rightarrow> Pending
      | Rejected error \<Rightarrow>
          (case createMCPError toolName error args of
             Inl exn \<Rightarrow> Rejected exn
           | Inr mcpError \<Rightarrow>
               Resolved
                 \<lparr>content_text = Text (''Error executing '' @ toolName @ '': '' @ err_message mcpError),
                  isError = True,
                  metadata = ErrorInfo (err_code mcpError) (err_details mcpError)\<rparr>))"

definition validateToolArgs ::
  "js_value \<Rightarrow> (js_value \<Rightarrow> bool) \<Rightarrow> string \<Rightarrow> MCPServerError + js_value" where
  "validateToolArgs args validator toolName =
     (if \<not> validator args then
        Inl (ToolExecutionError toolName
               (ToolExecutionDetails toolName ''Invalid arguments provided'' args))
      else Inr args)"

text \<open>
  \<open>error instanceof Error ? error : new Error(String(error))\<close>; \<open>Inl\<close> is what
  the expression throws, \<open>Inr\<close> its value.
\<close>

fun as_Error :: "thrown \<Rightarrow> thrown + thrown" where
  "as_Error (ThrownValue s) = Inr (ThrownError s None)"
| "as_Error ThrownUnprintable = Inl (TypeError ''Cannot convert object to primitive value'')"
| "as_Error error = Inr error"

text \<open>
  \<open>withRetry\<close>. \<open>operation k\<close> is the promise returned by the \<open>k\<close>-th call of the
  operation, counted from 0. The loop variable \<open>attempt\<close> starts at 1; \<open>lastError\<close> is
  \<open>None\<close> while it is unassigned. What the assignment of \<open>lastError\<close> throws leaves the
  \<open>catch\<close> clause and rejects the promise of \<open>withRetry\<close>. The result pairs the outcome
  with the effects in the order they happen; \<open>Delay ms\<close> is the delay asked of
  \<open>setTimeout\<close>.
\<close>

function retry_loop ::
  "(nat \<Rightarrow> 'a promise) \<Rightarrow> nat \<Rightarrow> nat \<Rightarrow> nat \<Rightarrow> thrown option \<Rightarrow> effect list
     \<Rightarrow> 'a promise \<times> effect list" where
  "retry_loop operation maxRetries delayMs attempt lastError trace =
     (if attempt \<le> maxRetries then
        (case operation (attempt - 1) of
           Resolved v \<Rightarrow> (Resolved v, trace @ [Invoke (attempt - 1)])
         | Pending \<Rightarrow> (Pending, trace @ [Invoke (attempt - 1)])
         | Rejected error \<Rightarrow>
             (case as_Error error of
                Inl exn \<Rightarrow> (Rejected exn, trace @ [Invoke (attempt - 1)])
              | Inr e \<Rightarrow>
                  if attempt = maxRetries then (Rejected e, trace @ [Invoke (attempt - 1)])
                  else
                    retry_loop operation maxRetries delayMs (attempt + 1) (Some e)
                      (trace @ [Invoke (attempt - 1), Delay (delayMs * 2 ^ (attempt - 1))])))
      else
        (Rejected (case lastError of Some e \<Rightarrow> e | None \<Rightarrow> ThrownValue ''undefined''), trace))"
  by pat_completeness auto
termination
  by (relation "measure (\<lambda>(operation, maxRetries, delayMs, attempt, lastError, trace).
        Suc maxRetries - attempt)") auto

declare retry_loop.simps [simp del]

definition withRetry ::
  "(nat \<Rightarrow> 'a promise) \<Rightarrow> nat \<Rightarrow> nat \<Rightarrow> 'a promise \<times> effect list" where
  "withRetry operation maxRetries delayMs = retry_loop operation maxRetries delayMs 1 None []"

text \<open>
  Decimal text of a number, as a template literal renders a timeout. It is the text
  JavaScript prints for the integers below \<open>10 ^ 21\<close>; from there on JavaScript prints
  an exponent (\<open>1e+21\<close>), which this function does not follow.
\<close>

function show_nat :: "nat \<Rightarrow> string" where
  "show_nat n =
     (if n < 10 then [''0123456789'' ! n]
      else show_nat (n div 10) @ [''0123456789'' ! (n mod 10)])"
  by pat_completeness auto
termination
  by (relation "measure id") auto

declare show_nat.simps [simp del]

text \<open>The error the timer of \<open>withTimeout\<close> rejects with.\<close>

definition timeout_error :: "nat \<Rightarrow> thrown" where
  "timeout_error timeoutMs =
     ThrownError (''Operation timed out after '' @ show_nat timeoutMs @ ''ms'') None"

text \<open>
  \<open>withTimeout\<close> with its clock. Time is counted in whole milliseconds since the call
  of \<open>withTimeout\<close>: \<open>Settles t r\<close> is a promise that settles during millisecond \<open>t\<close>,
  resolved with \<open>v\<close> when \<open>r = Inr v\<close> and rejected with \<open>e\<close> when \<open>r = Inl e\<close>;
  \<open>Never\<close> is a promise that stays pending.
\<close>

datatype 'a timed = Settles nat "thrown + 'a" | Never

text \<open>
  The delay a Node.js timer runs for: a delay below 1 or above \<open>2 ^ 31 - 1\<close> is
  set to 1.
\<close>

definition setTimeout_delay :: "nat \<Rightarrow> nat" where
  "setTimeout_delay ms = (if ms < 1 \<or> 2147483647 < ms then 1 else ms)"

text \<open>
  \<open>timeoutPromise\<close>: the promise that the callback of \<open>setTimeout\<close> rejects.
\<close>

definition timeoutPromise :: "nat \<Rightarrow> 'a timed" where
  "timeoutPromise timeoutMs = Settles (setTimeout_delay timeoutMs) (Inl (timeout_error timeoutMs))"

text \<open>
  \<open>Promise.race([operation, timeoutPromise])\<close> settles as the promise that settles
  first. A timer of delay \<open>u\<close> fires when \<open>u\<close> milliseconds have elapsed, so an
  operation that settles during millisecond \<open>t\<close> is ahead of it exactly when \<open>t < u\<close>.
\<close>

fun Promise_race :: "'a timed \<Rightarrow> 'a timed \<Rightarrow> 'a timed" where
  "Promise_race (Settles t r) (Settles u s) = (if t < u then Settles t r else Settles u s)"
| "Promise_race (Settles t r) Never = Settles t r"
| "Promise_race Never timer = timer"

definition withTimeout_timed :: "'a timed \<Rightarrow> nat \<Rightarrow> 'a timed" where
  "withTimeout_timed operation timeoutMs = Promise_race operation (timeoutPromise timeoutMs)"

text \<open>
  \<open>withTimeout\<close> without the clock, as the retry loop uses it: of the operation only
  its state at the moment the timer fires is kept. An operation still pending then
  loses the race.
\<close>

definition withTimeout :: "'a promise \<Rightarrow> nat \<Rightarrow> 'a promise" where
  "withTimeout operation timeoutMs =
     (case operation of
        Pending \<Rightarrow> Rejected (timeout_error timeoutMs)
      | Resolved v \<Rightarrow> Resolved v
      | Rejected error \<Rightarrow> Rejected error)"

record resilience_options =
  opt_maxRetries :: "nat option"
  opt_timeoutMs :: "nat option"
  opt_delayMs :: "nat option"

definition executeWithResilience ::
  "(nat \<Rightarrow> 'a promise) \<Rightarrow> resilience_options \<Rightarrow> 'a promise \<times> effect list" where
  "executeWithResilience operation options =
     (let maxRetries = (case opt_maxRetries options of Some n \<Rightarrow> n | None \<Rightarrow> 3);
          timeoutMs = (case opt_timeoutMs options of Some n \<Rightarrow> n | None \<Rightarrow> 30000);
          delayMs = (case opt_delayMs options of Some n \<Rightarrow> n | None \<Rightarrow> 1000)
      in withRetry (\<lambda>k. withTimeout (operation k) timeoutMs) maxRetries delayMs)"

text \<open>
  \<open>logToolExecution\<close> writes one console line holding \<open>JSON.stringify(logData)\<close>;
  \<open>logData\<close> holds the error's \<open>details\<close>. The value is what the call throws.
\<close>

fun details_serialisable :: "error_details \<Rightarrow> bool" where
  "details_serialisable (ToolExecutionDetails toolName originalError args) = json_serialisable args"
| "details_serialisable (N8NAPIDetails endpoint statusCode responseBody) = json_serialisable statusCode"
| "details_serialisable (OtherDetails v) = json_serialisable v"

definition logToolExecution ::
  "string \<Rightarrow> js_value \<Rightarrow> bool \<Rightarrow> MCPServerError option \<Rightarrow> thrown option" where
  "logToolExecution toolName args success error =
     (case error of
        None \<Rightarrow> None
      | Some e \<Rightarrow>
          if details_serialisable (err_details e) then None
          else Some (TypeError ''Do not know how to serialize a BigInt''))"

definition createSuccessResponse :: "js_value \<Rightarrow> string option \<Rightarrow> thrown + ToolResponse" where
  "createSuccessResponse data msg =
     (case (case msg of
              Some m \<Rightarrow> if m \<noteq> [] then Inr (Text m) else JSON_stringify data
            | None \<Rightarrow> JSON_stringify data) of
        Inl exn \<Rightarrow> Inl exn
      | Inr t \<Rightarrow> Inr \<lparr>content_text = t, isError = False, metadata = Data data\<rparr>)"

definition createErrorResponse :: "MCPServerError \<Rightarrow> string \<Rightarrow> ToolResponse" where
  "createErrorResponse error toolName =
     \<lparr>content_text = Text (''Error in '' @ toolName @ '': '' @ err_message error),
      isError = True,
      metadata = ErrorInfo (err_code error) (err_details error)\<rparr>"

text \<open>
  The \<open>catch\<close> clause of \<open>createSafeTool\<close>; what it throws itself rejects the promise
  the tool returns.
\<close>

definition safe_tool_catch :: "string \<Rightarrow> js_value \<Rightarrow> thrown \<Rightarrow> ToolResponse promise" where
  "safe_tool_catch toolName args error =
     (case createMCPError toolName error args of
        Inl exn \<Rightarrow> Rejected exn
      | Inr mcpError \<Rightarrow>
          (case logToolExecution toolName args False (Some mcpError) of
             Some exn \<Rightarrow> Rejected exn
           | None \<Rightarrow> Resolved (createErrorResponse mcpError toolName)))"

text \<open>
  \<open>createSafeTool(toolName, validator, handler)(args)\<close>. \<open>handler a k\<close> is the promise
  the \<open>k\<close>-th call of the handler returns on the arguments \<open>a\<close>.
\<close>

definition createSafeTool ::
  "string \<Rightarrow> (js_value \<Rightarrow> bool) \<Rightarrow> (js_value \<Rightarrow> nat \<Rightarrow> js_value promise) \<Rightarrow> js_value
     \<Rightarrow> ToolResponse promise \<times> effect list" where
  "createSafeTool toolName validator handler args =
     (case validateToolArgs args validator toolName of
        Inl error \<Rightarrow>
          (case logToolExecution toolName args False (Some error) of
             Some exn \<Rightarrow> (safe_tool_catch toolName args exn, [])
           | None \<Rightarrow> (Resolved (createErrorResponse error toolName), []))
      | Inr data \<Rightarrow>
          (case executeWithResilience (handler data)
                  \<lparr>opt_maxRetries = Some 2, opt_timeoutMs = Some 30000, opt_delayMs = None\<rparr> of
             (Resolved result, trace) \<Rightarrow>
               (case logToolExecution toolName args True None of
                  Some exn \<Rightarrow> (safe_tool_catch toolName args exn, trace)
                | None \<Rightarrow>
                    (case createSuccessResponse result None of
                       Inl exn \<Rightarrow> (safe_tool_catch toolName args exn, trace)
                     | Inr r \<Rightarrow> (Resolved r, trace)))
           | (Rejected error, trace) \<Rightarrow> (safe_tool_catch toolName args error, trace)
           | (Pending, trace) \<Rightarrow> (Pending, trace)))"

section \<open>Vocabulary for stating the properties\<close>

text \<open>
  \<open>keep_last n h\<close> is what \<open>splice(0, h.length - n)\<close> leaves of a history longer than
  \<open>n\<close>. \<open>stale\<close> is the test of the sweep; \<open>timeout_event\<close> and \<open>disconnected_event\<close>
  are the events the sweep and a removal push. \<open>invocations\<close> counts the calls of the
  operation in a list of effects; \<open>backoff_trace d n\<close> is \<open>n\<close> calls with the delays
  \<open>d * 2 ^ k\<close> between them. \<open>validation_error\<close> is the error \<open>validateToolArgs\<close>
  builds. \<open>state_at p u\<close> is the state of the timed promise \<open>p\<close> when a timer of delay
  \<open>u\<close> fires, and \<open>outcome p\<close> its final state.
\<close>

definition keep_last :: "nat \<Rightarrow> 'a list \<Rightarrow> 'a list" where
  "keep_last n h = drop (length h - n) h"

definition stale :: "int \<Rightarrow> int \<Rightarrow> string \<times> SSEConnection \<Rightarrow> bool" where
  "stale now timeoutMs kv \<longleftrightarrow> now - lastActivity (snd kv) > timeoutMs"

definition timeout_event :: "int \<Rightarrow> string \<times> SSEConnection \<Rightarrow> ConnectionEvent" where
  "timeout_event now kv =
     \<lparr>connectionId = fst kv, event = Timeout, timestamp = now,
      details = Some (TimeoutAfter (now - lastActivity (snd kv)))\<rparr>"

definition disconnected_event :: "(nat \<Rightarrow> int) \<Rightarrow> nat \<times> string \<Rightarrow> ConnectionEvent" where
  "disconnected_event clock ik =
     \<lparr>connectionId = snd ik, event = Disconnected, timestamp = clock (fst ik), details = None\<rparr>"

fun is_invoke :: "effect \<Rightarrow> bool" where
  "is_invoke (Invoke k) = True"
| "is_invoke (Delay ms) = False"

definition invocations :: "effect list \<Rightarrow> nat" where
  "invocations trace = length (filter is_invoke trace)"

definition backoff_from :: "nat \<Rightarrow> nat \<Rightarrow> nat \<Rightarrow> effect list" where
  "backoff_from delayMs i j =
     concat (map (\<lambda>k. [Invoke k, Delay (delayMs * 2 ^ k)]) [i..<j]) @ [Invoke j]"

definition backoff_trace :: "nat \<Rightarrow> nat \<Rightarrow> effect list" where
  "backoff_trace delayMs n = backoff_from delayMs 0 (n - 1)"

definition validation_error :: "string \<Rightarrow> js_value \<Rightarrow> MCPServerError" where
  "validation_error toolName args =
     ToolExecutionError toolName (ToolExecutionDetails toolName ''Invalid arguments provided'' args)"

fun state_at :: "'a timed \<Rightarrow> nat \<Rightarrow> 'a promise" where
  "state_at (Settles t (Inr v)) u = (if t < u then Resolved v else Pending)"
| "state_at (Settles t (Inl e)) u = (if t < u then Rejected e else Pending)"
| "state_at Never u = Pending"

fun outcome :: "'a timed \<Rightarrow> 'a promise" where
  "outcome (Settles t (Inr v)) = Resolved v"
| "outcome (Settles t (Inl e)) = Rejected e"
| "outcome Never = Pending"

subsection \<open>Concrete inputs\<close>

definition example_config :: "nat \<Rightarrow> HTTPTransportConfig" where
  "example_config n = \<lparr>maxConnections = n, connectionTimeout = 500, keepAliveTimeout = 60\<rparr>"

definition example_connection :: "string \<Rightarrow> int \<Rightarrow> SSEConnection" where
  "example_connection cid t =
     \<lparr>conn_id = cid, clientVersion = ''curl'', connectedAt = t, lastActivity = t,
      response = Some \<lparr>headersSent = False, end_throws = Some ''write after end''\<rparr>, isActive = True\<rparr>"

definition failing_api_call :: "js_value \<Rightarrow> nat \<Rightarrow> js_value promise" where
  "failing_api_call args k =
     Rejected (ThrownError ''Request failed with status code 500''
       (Some (JObject [(''status'', JNumber 500), (''data'', JObject [(''id'', JBigInt 1)])])))"

definition flaky_operation :: "nat \<Rightarrow> js_value promise" where
  "flaky_operation k = (if k < 2 then Rejected (ThrownValue ''ECONNRESET'') else Resolved (JNumber 42))"

definition unprintable_operation :: "nat \<Rightarrow> js_value promise" where
  "unprintable_operation k = (if k < 2 then Rejected ThrownUnprintable else Resolved (JNumber 42))"

section \<open>Properties of the connection pool\<close>

subsection \<open>The map and the history\<close>

lemma addConnectionEvent_fields [simp]:
  "connections (addConnectionEvent ev p) = connections p"
  "config (addConnectionEvent ev p) = config p"
  "isShuttingDown (addConnectionEvent ev p) = isShuttingDown p"
  "cleanupInterval (addConnectionEvent ev p) = cleanupInterval p"
  by (simp_all add: addConnectionEvent_def Let_def)

lemma addConnectionEvent_history:
  "connectionHistory (addConnectionEvent ev p) = keep_last 1000 (connectionHistory p @ [ev])"
  by (simp add: addConnectionEvent_def Let_def keep_last_def)

lemma keep_last_append: "keep_last n (keep_last n h @ es) = keep_last n (h @ es)"
proof (cases "length h \<le> n")
  case True
  then show ?thesis by (simp add: keep_last_def)
next
  case False
  then have e: "length h + length es - n = (length h - n) + length es" by arith
  have "keep_last n (h @ es) = drop (length es) (drop (length h - n) (h @ es))"
    unfolding keep_last_def length_append e by (simp add: add.commute)
  also have "\<dots> = drop (length es) (drop (length h - n) h @ es)" by simp
  also have "\<dots> = keep_last n (keep_last n h @ es)"
    using False by (simp add: keep_last_def)
  finally show ?thesis by simp
qed

lemma keep_last_short: "length h \<le> n \<Longrightarrow> keep_last n h = h"
  by (simp add: keep_last_def)

lemma last_keep_last: "0 < n \<Longrightarrow> h \<noteq> [] \<Longrightarrow> last (keep_last n h) = last h"
  by (auto simp: keep_last_def)

lemma length_keep_last: "length (keep_last n h) \<le> n"
  by (auto simp: keep_last_def)

lemma set_keep_last: "length es \<le> n \<Longrightarrow> set es \<subseteq> set (keep_last n (h @ es))"
proof -
  assume le: "length es \<le> n"
  have "keep_last n (h @ es) = drop (length h + length es - n) h @ es"
    using le by (simp add: keep_last_def)
  then show ?thesis by simp
qed

lemma addConnectionEvent_last: "last (connectionHistory (addConnectionEvent ev p)) = ev"
  by (simp add: addConnectionEvent_history keep_last_def)

lemma addConnectionEvent_bounded: "length (connectionHistory (addConnectionEvent ev p)) \<le> 1000"
  by (simp add: addConnectionEvent_history keep_last_def)

lemma map_fst_map_set:
  "map fst (map_set k v m) = (if k \<in> fst ` set m then map fst m else map fst m @ [k])"
  by (induction m) (force simp: image_iff)+

lemma length_map_set:
  "length (map_set k v m) = (if k \<in> fst ` set m then length m else Suc (length m))"
  using arg_cong [OF map_fst_map_set, of length k v m] by (simp split: if_splits)

lemma map_of_map_set: "map_of (map_set k v m) = (map_of m)(k \<mapsto> v)"
  by (induction m) auto

lemma distinct_map_set: "distinct (map fst m) \<Longrightarrow> distinct (map fst (map_set k v m))"
  by (simp add: map_fst_map_set)

lemma distinct_map_delete: "distinct (map fst m) \<Longrightarrow> distinct (map fst (map_delete k m))"
  by (simp add: map_delete_def distinct_map_filter)

lemma map_get_map_delete: "map_get (map_delete k m) k = None"
  by (induction m) (auto simp: map_get_def map_delete_def)

lemma length_map_delete: "length (map_delete k m) \<le> length m"
  by (simp add: map_delete_def)

lemma map_delete_absent: "map_get m k = None \<Longrightarrow> map_delete k m = m"
  by (induction m) (auto simp: map_get_def map_delete_def split: if_splits)

lemma map_get_None_iff: "map_get m k = None \<longleftrightarrow> k \<notin> fst ` set m"
  by (simp add: map_get_def map_of_eq_None_iff)

lemma map_get_Some_key: "map_get m k = Some v \<Longrightarrow> k \<in> fst ` set m"
  using map_get_None_iff [of m k] by auto

lemma keys_map_delete: "fst ` set (map_delete k m) = fst ` set m - {k}"
  by (auto simp: map_delete_def)

lemma same_key_same_entry:
  "distinct (map fst m) \<Longrightarrow> kv \<in> set m \<Longrightarrow> kv' \<in> set m \<Longrightarrow> fst kv = fst kv' \<Longrightarrow> kv = kv'"
  by (metis distinct_map inj_onD)

lemma filter_stale_keys:
  assumes "distinct (map fst m)"
  shows "filter (\<lambda>kv. fst kv \<notin> fst ` set (filter P m)) m = filter (\<lambda>kv. \<not> P kv) m"
proof (rule filter_cong [OF refl])
  fix kv assume kv: "kv \<in> set m"
  show "(fst kv \<notin> fst ` set (filter P m)) = (\<not> P kv)"
  proof
    assume "fst kv \<notin> fst ` set (filter P m)"
    then show "\<not> P kv" using kv by force
  next
    assume np: "\<not> P kv"
    show "fst kv \<notin> fst ` set (filter P m)"
    proof
      assume "fst kv \<in> fst ` set (filter P m)"
      then obtain kv' where kv': "kv' \<in> set m" "P kv'" "fst kv = fst kv'" by auto
      from same_key_same_entry [OF assms kv kv'(1) kv'(3)] np kv'(2) show False by simp
    qed
  qed
qed

lemma filter_not_in_keys: "filter (\<lambda>kv. fst kv \<notin> fst ` set m) m = []"
  by (induction m) (auto simp: filter_empty_conv)

subsection \<open>Removal\<close>

lemma removeConnection_fst: "fst (removeConnection cid now p) = None"
  by (simp add: removeConnection_def split: option.splits)

lemma removeConnection_fields [simp]:
  "connections (snd (removeConnection cid now p)) = map_delete cid (connections p)"
  "config (snd (removeConnection cid now p)) = config p"
  "isShuttingDown (snd (removeConnection cid now p)) = isShuttingDown p"
  "cleanupInterval (snd (removeConnection cid now p)) = cleanupInterval p"
  by (simp_all add: removeConnection_def map_delete_absent split: option.splits)

lemma removeConnection_absent:
  "map_get (connections p) cid = None \<Longrightarrow> removeConnection cid now p = (None, p)"
  by (simp add: removeConnection_def)

lemma removeConnection_present_history:
  "cid \<in> fst ` set (connections p) \<Longrightarrow>
   connectionHistory (snd (removeConnection cid now p)) =
     keep_last 1000 (connectionHistory p @
       [\<lparr>connectionId = cid, event = Disconnected, timestamp = now, details = None\<rparr>])"
  by (auto simp: removeConnection_def map_get_None_iff addConnectionEvent_history
      split: option.splits)

lemma removeConnection_present_last:
  "getConnection cid p \<noteq> None \<Longrightarrow>
   event (last (connectionHistory (snd (removeConnection cid t p)))) = Disconnected"
  by (auto simp: getConnection_def removeConnection_def addConnectionEvent_last split: option.splits)

lemma removeConnection_bounded:
  "length (connectionHistory p) \<le> 1000 \<Longrightarrow>
   length (connectionHistory (snd (removeConnection cid now p))) \<le> 1000"
  by (simp add: removeConnection_def addConnectionEvent_bounded split: option.splits)

lemma remove_all_fields [simp]:
  "connections (remove_all cids i clock p) = filter (\<lambda>kv. fst kv \<notin> set cids) (connections p)"
  "config (remove_all cids i clock p) = config p"
  "isShuttingDown (remove_all cids i clock p) = isShuttingDown p"
  "cleanupInterval (remove_all cids i clock p) = cleanupInterval p"
  by (induction cids i clock p rule: remove_all.induct)
     (auto simp: map_delete_def intro: filter_cong)

lemma remove_all_bounded:
  "length (connectionHistory p) \<le> 1000 \<Longrightarrow>
   length (connectionHistory (remove_all cids i clock p)) \<le> 1000"
  by (induction cids i clock p rule: remove_all.induct) (simp_all add: removeConnection_bounded)

lemma remove_all_history:
  "distinct cids \<Longrightarrow> set cids \<subseteq> fst ` set (connections p) \<Longrightarrow>
   length (connectionHistory p) \<le> 1000 \<Longrightarrow>
   connectionHistory (remove_all cids i clock p) =
     keep_last 1000 (connectionHistory p @ map (disconnected_event clock) (enumerate i cids))"
proof (induction cids i clock p rule: remove_all.induct)
  case (1 i clock p)
  then show ?case by (simp add: keep_last_short)
next
  case (2 cid cids i clock p)
  let ?p' = "snd (removeConnection cid (clock i) p)"
  let ?ev = "\<lparr>connectionId = cid, event = Disconnected, timestamp = clock i, details = None\<rparr>"
  have present: "cid \<in> fst ` set (connections p)" using "2.prems"(2) by simp
  have sub: "set cids \<subseteq> fst ` set (connections ?p')"
    using "2.prems"(1,2) by (auto simp: keys_map_delete)
  have "connectionHistory (remove_all cids (Suc i) clock ?p') =
     keep_last 1000 (connectionHistory ?p' @ map (disconnected_event clock) (enumerate (Suc i) cids))"
    using "2.prems"(1) sub removeConnection_bounded [OF "2.prems"(3)]
    by (intro "2.IH") simp_all
  also have "\<dots> = keep_last 1000 ((connectionHistory p @ [?ev])
       @ map (disconnected_event clock) (enumerate (Suc i) cids))"
    by (simp only: removeConnection_present_history [OF present] keep_last_append)
  finally have step: "connectionHistory (remove_all cids (Suc i) clock ?p') =
     keep_last 1000 ((connectionHistory p @ [?ev])
       @ map (disconnected_event clock) (enumerate (Suc i) cids))" .
  have ev: "disconnected_event clock (i, cid) = ?ev" by (simp add: disconnected_event_def)
  show ?case using step by (simp add: ev)
qed

text \<open>
  \<^bold>\<open>C9\<close>. \<open>removeConnection\<close> is idempotent: a second call on the same id returns
  normally and leaves the whole pool (membership and event history) as the first call
  left it. No call throws, also when \<open>response.end()\<close> does; afterwards the id is not in
  the pool; and on an id that is not in the pool the call changes nothing.
\<close>

theorem removeConnection_idempotent:
  "removeConnection cid t2 (snd (removeConnection cid t1 p)) = (None, snd (removeConnection cid t1 p))
   \<and> fst (removeConnection cid t1 p) = None
   \<and> getConnection cid (snd (removeConnection cid t1 p)) = None
   \<and> (getConnection cid p = None \<longrightarrow> removeConnection cid t1 p = (None, p))"
  by (simp add: removeConnection_fst removeConnection_absent map_get_map_delete getConnection_def)

subsection \<open>Adding, and the calls of a client\<close>

lemma addConnection_fields [simp]:
  "config (snd (addConnection c now p)) = config p"
  "isShuttingDown (snd (addConnection c now p)) = isShuttingDown p"
  by (simp_all add: addConnection_def Let_def)

lemma addConnection_connections:
  "connections (snd (addConnection c now p)) =
     (if isShuttingDown p \<or> map_size (connections p) \<ge> maxConnections (config p)
      then connections p else map_set (conn_id c) c (connections p))"
  by (simp add: addConnection_def Let_def)

lemma addConnection_shutting_down:
  "isShuttingDown p \<Longrightarrow>
     addConnection c now p = (Some (Error ''Connection pool is shutting down''), p)"
  by (simp add: addConnection_def)

text \<open>
  \<^bold>\<open>C10\<close>. When \<open>addConnection\<close> throws, the membership map is as before. If the
  pool is shutting down, the pool is unchanged altogether. Otherwise the pool is full, the
  error is \<open>ConnectionPoolFullError\<close>, and the only change is one \<open>error\<close> event for the
  rejected id pushed on the history, which has at most 1000 entries afterwards.
\<close>

theorem addConnection_failure_effects:
  "fst (addConnection c now p) \<noteq> None \<longrightarrow>
     connections (snd (addConnection c now p)) = connections p
     \<and> (if isShuttingDown p
         then addConnection c now p = (Some (Error ''Connection pool is shutting down''), p)
         else map_size (connections p) \<ge> maxConnections (config p)
           \<and> fst (addConnection c now p) =
               Some (ConnectionPoolFullError (maxConnections (config p))
                       (maxConnections (config p)) (map_size (connections p)))
           \<and> snd (addConnection c now p) =
               addConnectionEvent
                 \<lparr>connectionId = conn_id c, event = ErrorEvent, timestamp = now,
                  details = Some (ErrorMessage (ConnectionPoolFullError (maxConnections (config p))
                       (maxConnections (config p)) (map_size (connections p))))\<rparr> p
           \<and> event (last (connectionHistory (snd (addConnection c now p)))) = ErrorEvent
           \<and> connectionId (last (connectionHistory (snd (addConnection c now p)))) = conn_id c
           \<and> length (connectionHistory (snd (addConnection c now p))) \<le> 1000)"
  by (simp add: addConnection_def Let_def addConnectionEvent_last addConnectionEvent_bounded)

lemma updateConnectionActivity_fields [simp]:
  "config (updateConnectionActivity cid now p) = config p"
  "isShuttingDown (updateConnectionActivity cid now p) = isShuttingDown p"
  "connectionHistory (updateConnectionActivity cid now p) = connectionHistory p"
  "map fst (connections (updateConnectionActivity cid now p)) = map fst (connections p)"
  by (simp_all add: updateConnectionActivity_def map_fst_map_set map_get_None_iff [symmetric]
        split: option.splits)

lemma updateConnectionActivity_length:
  "length (connections (updateConnectionActivity cid now p)) = length (connections p)"
  using arg_cong [OF updateConnectionActivity_fields(4), of length cid now p]
  by (simp only: length_map)

lemma collect_timeouts_fields [simp]:
  "connections (snd (collect_timeouts now t m (acc, p))) = connections p"
  "config (snd (collect_timeouts now t m (acc, p))) = config p"
  "isShuttingDown (snd (collect_timeouts now t m (acc, p))) = isShuttingDown p"
  "cleanupInterval (snd (collect_timeouts now t m (acc, p))) = cleanupInterval p"
  by (induction m arbitrary: acc p) (simp_all add: Let_def split_paired_all)

lemma collect_timeouts_ids:
  "fst (collect_timeouts now t m (acc, p)) = acc @ map fst (filter (\<lambda>kv. now - lastActivity (snd kv) > t) m)"
  by (induction m arbitrary: acc p) (auto simp: Let_def)

lemma collect_timeouts_history:
  "length (connectionHistory p) \<le> 1000 \<Longrightarrow>
   connectionHistory (snd (collect_timeouts now t m (acc, p))) =
     keep_last 1000 (connectionHistory p @ map (timeout_event now) (filter (stale now t) m))"
proof (induction m arbitrary: acc p)
  case Nil
  then show ?case by (simp add: keep_last_short)
next
  case (Cons kv m)
  obtain cid c where kv: "kv = (cid, c)" by (cases kv)
  show ?case
  proof (cases "stale now t kv")
    case True
    let ?ev = "\<lparr>connectionId = cid, event = Timeout, timestamp = now,
                 details = Some (TimeoutAfter (now - lastActivity c))\<rparr>"
    have "connectionHistory (snd (collect_timeouts now t m (acc @ [cid], addConnectionEvent ?ev p))) =
      keep_last 1000 (connectionHistory (addConnectionEvent ?ev p)
         @ map (timeout_event now) (filter (stale now t) m))"
      by (rule Cons.IH) (rule addConnectionEvent_bounded)
    also have "\<dots> = keep_last 1000 ((connectionHistory p @ [?ev])
         @ map (timeout_event now) (filter (stale now t) m))"
      by (simp only: addConnectionEvent_history keep_last_append)
    finally have step: "connectionHistory (snd (collect_timeouts now t m (acc @ [cid], addConnectionEvent ?ev p))) =
      keep_last 1000 ((connectionHistory p @ [?ev]) @ map (timeout_event now) (filter (stale now t) m))" .
    have st: "now - lastActivity c > t" using True kv by (simp add: stale_def)
    have ev: "timeout_event now (cid, c) = ?ev" by (simp add: timeout_event_def)
    show ?thesis using step st True by (simp add: kv Let_def ev)
  next
    case False
    then have st: "\<not> now - lastActivity c > t" using kv by (simp add: stale_def)
    show ?thesis using Cons.IH [OF Cons.prems, of acc] st False by (simp add: kv Let_def)
  qed
qed

lemma collect_timeouts_bounded:
  "length (connectionHistory p) \<le> 1000 \<Longrightarrow>
   length (connectionHistory (snd (collect_timeouts now t m (acc, p)))) \<le> 1000"
  by (simp add: collect_timeouts_history length_keep_last)

lemma cleanup_fields [simp]:
  "config (snd (cleanupInactiveConnections now clock p)) = config p"
  "isShuttingDown (snd (cleanupInactiveConnections now clock p)) = isShuttingDown p"
  by (simp_all add: cleanupInactiveConnections_def Let_def split_beta)

lemma cleanup_connections_keys:
  "connections (snd (cleanupInactiveConnections now clock p)) =
     filter (\<lambda>kv. fst kv \<notin> fst ` set (filter (\<lambda>kv. now - lastActivity (snd kv) > connectionTimeout (config p)) (connections p)))
       (connections p)"
  by (simp add: cleanupInactiveConnections_def Let_def split_beta collect_timeouts_ids)

lemma call_config: "\<not> is_shutdown c \<Longrightarrow> config (call c p) = config p"
  by (cases c) simp_all

lemma call_config_all: "config (call c p) = config p"
  by (cases c) (simp_all add: shutdown_def Let_def)

lemma call_not_shutting: "\<not> is_shutdown c \<Longrightarrow> isShuttingDown (call c p) = isShuttingDown p"
  by (cases c) simp_all

lemma call_capacity:
  assumes "length (connections p) \<le> maxConnections (config p)"
  shows "length (connections (call c p)) \<le> maxConnections (config p)"
proof (cases c)
  case (AddConnection x1 x2)
  with assms show ?thesis
    by (auto simp: addConnection_connections map_size_def length_map_set)
next
  case (RemoveConnection x1 x2)
  with assms show ?thesis
    using length_map_delete [of x1 "connections p"] by simp
next
  case (UpdateConnectionActivity x1 x2)
  with assms show ?thesis by (simp add: updateConnectionActivity_length)
next
  case (CleanupInactiveConnections x1 x2)
  with assms show ?thesis
    by (simp add: cleanup_connections_keys le_trans [OF length_filter_le])
next
  case (Shutdown x)
  with assms show ?thesis
    by (simp add: shutdown_def Let_def le_trans [OF length_filter_le])
qed

lemma calls_capacity:
  "length (connections p) \<le> maxConnections (config p) \<Longrightarrow>
   length (connections (calls cs p)) \<le> maxConnections (config p)"
proof (induction cs arbitrary: p)
  case Nil
  then show ?case by simp
next
  case (Cons c cs)
  have "length (connections (calls cs (call c p))) \<le> maxConnections (config (call c p))"
    using call_capacity [OF Cons.prems, of c] by (intro Cons.IH) (simp add: call_config_all)
  then show ?case by (simp add: call_config_all)
qed

lemma calls_invariant:
  "\<forall>c \<in> set cs. \<not> is_shutdown c \<Longrightarrow> \<not> isShuttingDown p \<Longrightarrow>
   length (connections p) \<le> maxConnections (config p) \<Longrightarrow>
     config (calls cs p) = config p \<and> \<not> isShuttingDown (calls cs p)
     \<and> length (connections (calls cs p)) \<le> maxConnections (config p)"
proof (induction cs arbitrary: p)
  case Nil
  then show ?case by simp
next
  case (Cons c cs)
  have c: "\<not> is_shutdown c" using Cons.prems(1) by simp
  have "config (calls cs (call c p)) = config (call c p) \<and> \<not> isShuttingDown (calls cs (call c p))
     \<and> length (connections (calls cs (call c p))) \<le> maxConnections (config (call c p))"
    using Cons.prems call_capacity [OF Cons.prems(3), of c]
    by (intro Cons.IH) (simp_all add: call_config [OF c] call_not_shutting [OF c])
  then show ?case by (simp add: call_config [OF c])
qed

lemma call_distinct:
  "distinct (map fst (connections p)) \<Longrightarrow> distinct (map fst (connections (call c p)))"
proof (cases c)
  case (AddConnection x1 x2)
  assume "distinct (map fst (connections p))"
  with AddConnection show ?thesis by (simp add: addConnection_connections distinct_map_set)
next
  case (RemoveConnection x1 x2)
  assume "distinct (map fst (connections p))"
  with RemoveConnection show ?thesis by (simp add: distinct_map_delete)
next
  case (UpdateConnectionActivity x1 x2)
  assume "distinct (map fst (connections p))"
  with UpdateConnectionActivity show ?thesis by simp
next
  case (CleanupInactiveConnections x1 x2)
  assume "distinct (map fst (connections p))"
  with CleanupInactiveConnections show ?thesis
    by (simp add: cleanup_connections_keys distinct_map_filter)
next
  case (Shutdown x)
  assume "distinct (map fst (connections p))"
  with Shutdown show ?thesis by (simp add: shutdown_def Let_def distinct_map_filter)
qed

lemma call_bounded:
  assumes "length (connectionHistory p) \<le> 1000"
  shows "length (connectionHistory (call c p)) \<le> 1000"
proof (cases c)
  case (AddConnection x1 x2)
  with assms show ?thesis by (simp add: addConnection_def Let_def addConnectionEvent_bounded)
next
  case (RemoveConnection x1 x2)
  with assms show ?thesis by (simp add: removeConnection_bounded)
next
  case (UpdateConnectionActivity x1 x2)
  with assms show ?thesis by simp
next
  case (CleanupInactiveConnections x1 x2)
  with assms show ?thesis
    by (simp add: cleanupInactiveConnections_def split_beta remove_all_bounded
        collect_timeouts_bounded)
next
  case (Shutdown x)
  with assms show ?thesis by (simp add: shutdown_def Let_def remove_all_bounded)
qed

lemma reachable_pool:
  "config (calls cs (new_pool cfg)) = cfg
   \<and> distinct (map fst (connections (calls cs (new_pool cfg))))
   \<and> length (connectionHistory (calls cs (new_pool cfg))) \<le> 1000"
proof -
  have "config p = cfg \<Longrightarrow> distinct (map fst (connections p)) \<Longrightarrow>
        length (connectionHistory p) \<le> 1000 \<Longrightarrow>
        config (calls cs p) = cfg \<and> distinct (map fst (connections (calls cs p)))
        \<and> length (connectionHistory (calls cs p)) \<le> 1000" for p
    by (induction cs arbitrary: p) (simp_all add: call_config_all call_distinct call_bounded)
  then show ?thesis by (simp add: new_pool_def)
qed


subsection \<open>Shutdown\<close>

lemma drained_fixed:
  assumes "isShuttingDown p" "\<not> cleanupInterval p" "connections p = []"
  shows "call c p = p"
proof (cases c)
  case (AddConnection x1 x2)
  with assms show ?thesis by (simp add: addConnection_shutting_down)
next
  case (RemoveConnection x1 x2)
  with assms show ?thesis by (simp add: removeConnection_def map_get_def)
next
  case (UpdateConnectionActivity x1 x2)
  with assms show ?thesis by (simp add: updateConnectionActivity_def map_get_def)
next
  case (CleanupInactiveConnections x1 x2)
  with assms show ?thesis by (simp add: cleanupInactiveConnections_def)
next
  case (Shutdown x)
  with assms show ?thesis by (simp add: shutdown_def map_keys_def)
qed

lemma drained_calls_fixed:
  "isShuttingDown p \<Longrightarrow> \<not> cleanupInterval p \<Longrightarrow> connections p = [] \<Longrightarrow> calls cs p = p"
  by (induction cs) (simp_all add: drained_fixed)

text \<open>
  \<^bold>\<open>C6\<close>. \<open>shutdown\<close> returns normally, whatever \<open>response.end()\<close> does on the
  connections; afterwards the pool holds no connection, the flag is set and the timer is
  cleared. \<open>addConnection\<close> throws the shutdown error and leaves the pool unchanged in
  every state the pool goes through while the removals run (after any number \<open>n\<close> of
  them), and after any further calls \<open>cs\<close> on the pool, which leave the drained pool as
  it is. The error is the plain \<open>Error('Connection pool is shutting down')\<close>.
\<close>

theorem shutdown_drains:
  "fst (shutdown clock p) = None
   \<and> connections (snd (shutdown clock p)) = []
   \<and> isShuttingDown (snd (shutdown clock p))
   \<and> \<not> cleanupInterval (snd (shutdown clock p))
   \<and> addConnection c now
        (remove_all (take n (map_keys (connections p))) 0 clock
           (p\<lparr>isShuttingDown := True, cleanupInterval := False\<rparr>)) =
       (Some (Error ''Connection pool is shutting down''),
        remove_all (take n (map_keys (connections p))) 0 clock
           (p\<lparr>isShuttingDown := True, cleanupInterval := False\<rparr>))
   \<and> calls cs (snd (shutdown clock p)) = snd (shutdown clock p)
   \<and> addConnection c now (calls cs (snd (shutdown clock p))) =
       (Some (Error ''Connection pool is shutting down''), snd (shutdown clock p))"
proof -
  let ?q = "snd (shutdown clock p)"
  have q: "connections ?q = []" "isShuttingDown ?q" "\<not> cleanupInterval ?q"
    by (simp_all add: shutdown_def Let_def map_keys_def filter_not_in_keys)
  have fixed: "calls cs ?q = ?q" by (rule drained_calls_fixed [OF q(2) q(3) q(1)])
  have during: "isShuttingDown (remove_all (take n (map_keys (connections p))) 0 clock
           (p\<lparr>isShuttingDown := True, cleanupInterval := False\<rparr>))" by simp
  show ?thesis
    using q fixed addConnection_shutting_down [OF during] addConnection_shutting_down [OF q(2)]
    by (simp add: shutdown_def)
qed

subsection \<open>The sweep\<close>

lemma cleanup_history:
  assumes "distinct (map fst (connections p))" "length (connectionHistory p) \<le> 1000"
  shows "connectionHistory (snd (cleanupInactiveConnections now clock p)) =
     keep_last 1000 (connectionHistory p
        @ map (timeout_event now) (filter (stale now (connectionTimeout (config p))) (connections p))
        @ map (disconnected_event clock)
            (enumerate 0 (map fst (filter (stale now (connectionTimeout (config p))) (connections p)))))"
proof -
  let ?t = "connectionTimeout (config p)"
  let ?st = "filter (stale now ?t) (connections p)"
  let ?r = "collect_timeouts now ?t (connections p) ([], p)"
  have ids: "fst ?r = map fst ?st"
    by (simp add: collect_timeouts_ids stale_def [abs_def])
  have d: "distinct (map fst ?st)" using assms(1) by (simp add: distinct_map_filter)
  have sub: "set (map fst ?st) \<subseteq> fst ` set (connections (snd ?r))" by auto
  have "connectionHistory (remove_all (map fst ?st) 0 clock (snd ?r)) =
     keep_last 1000 (connectionHistory (snd ?r)
        @ map (disconnected_event clock) (enumerate 0 (map fst ?st)))"
    by (rule remove_all_history [OF d sub collect_timeouts_bounded [OF assms(2)]])
  also have "\<dots> = keep_last 1000 ((connectionHistory p @ map (timeout_event now) ?st)
        @ map (disconnected_event clock) (enumerate 0 (map fst ?st)))"
    by (simp only: collect_timeouts_history [OF assms(2)] keep_last_append)
  finally show ?thesis
    by (simp add: cleanupInactiveConnections_def split_beta ids)
qed

lemma cleanup_connections:
  assumes "distinct (map fst (connections p))"
  shows "connections (snd (cleanupInactiveConnections now clock p)) =
     filter (\<lambda>kv. \<not> stale now (connectionTimeout (config p)) kv) (connections p)"
  using filter_stale_keys [OF assms, of "stale now (connectionTimeout (config p))"]
  by (simp add: cleanup_connections_keys stale_def [abs_def])

lemma cleanup_count:
  "fst (cleanupInactiveConnections now clock p) =
     length (filter (stale now (connectionTimeout (config p))) (connections p))"
  by (simp add: cleanupInactiveConnections_def split_beta collect_timeouts_ids stale_def [abs_def])

lemma cleanup_member:
  assumes d: "distinct (map fst (connections p))" and kv: "kv \<in> set (connections p)"
  shows "getConnection (fst kv) (snd (cleanupInactiveConnections now clock p)) =
     (if stale now (connectionTimeout (config p)) kv then None else Some (snd kv))"
proof -
  let ?P = "stale now (connectionTimeout (config p))"
  let ?m' = "filter (\<lambda>kv. \<not> ?P kv) (connections p)"
  have d': "distinct (map fst ?m')" using d by (simp add: distinct_map_filter)
  have conn: "connections (snd (cleanupInactiveConnections now clock p)) = ?m'"
    by (rule cleanup_connections [OF d])
  show ?thesis
  proof (cases "?P kv")
    case True
    have "fst kv \<notin> fst ` set ?m'"
    proof
      assume "fst kv \<in> fst ` set ?m'"
      then obtain kv' where kv': "kv' \<in> set (connections p)" "\<not> ?P kv'" "fst kv = fst kv'" by auto
      from same_key_same_entry [OF d kv kv'(1) kv'(3)] True kv'(2) show False by simp
    qed
    then show ?thesis using True
      by (simp add: getConnection_def conn map_get_None_iff)
  next
    case False
    then have "(fst kv, snd kv) \<in> set ?m'" using kv by simp
    then have "map_of ?m' (fst kv) = Some (snd kv)"
      using d' by (simp only: map_of_eq_Some_iff)
    then show ?thesis using False
      by (simp add: getConnection_def conn map_get_def)
  qed
qed

text \<open>
  \<^bold>\<open>C8\<close>. A sweep at time \<open>now\<close> on a pool reached by any calls returns the number of
  connections with \<open>now - lastActivity > connectionTimeout\<close>, removes exactly those and
  leaves the others as they are. The history afterwards is the last 1000 entries of the
  old history, followed by one \<open>timeout\<close> event per stale connection, followed by one
  \<open>disconnected\<close> event per stale connection; so the \<open>timeout\<close> event of a stale
  connection is in the history when at most 500 connections are stale. A removal asked
  for by a client records \<open>disconnected\<close>, a different kind of event.
\<close>

theorem cleanup_removes_stale_connections:
  "let p = calls cs (new_pool cfg);
       idle = filter (stale now (connectionTimeout cfg)) (connections p);
       q = snd (cleanupInactiveConnections now clock p)
   in fst (cleanupInactiveConnections now clock p) = length idle
    \<and> connections q = filter (\<lambda>kv. \<not> stale now (connectionTimeout cfg) kv) (connections p)
    \<and> connectionHistory q =
        keep_last 1000 (connectionHistory p @ map (timeout_event now) idle
          @ map (disconnected_event clock) (enumerate 0 (map fst idle)))
    \<and> (\<forall>kv \<in> set (connections p).
          if stale now (connectionTimeout cfg) kv
          then getConnection (fst kv) q = None
             \<and> event (timeout_event now kv) = Timeout
             \<and> connectionId (timeout_event now kv) = fst kv
             \<and> (2 * length idle \<le> 1000 \<longrightarrow> timeout_event now kv \<in> set (connectionHistory q))
          else getConnection (fst kv) q = Some (snd kv))
    \<and> (\<forall>cid t. getConnection cid p \<noteq> None \<longrightarrow>
          event (last (connectionHistory (snd (removeConnection cid t p)))) = Disconnected)
    \<and> Timeout \<noteq> Disconnected"
proof -
  let ?p = "calls cs (new_pool cfg)"
  let ?idle = "filter (stale now (connectionTimeout cfg)) (connections ?p)"
  let ?q = "snd (cleanupInactiveConnections now clock ?p)"
  let ?new = "map (timeout_event now) ?idle @ map (disconnected_event clock) (enumerate 0 (map fst ?idle))"
  have cfg: "config ?p = cfg" and d: "distinct (map fst (connections ?p))"
    and b: "length (connectionHistory ?p) \<le> 1000"
    using reachable_pool [of cs cfg] by simp_all
  have h: "connectionHistory ?q = keep_last 1000 (connectionHistory ?p @ ?new)"
    using cleanup_history [OF d b, of now clock] by (simp add: cfg)
  have recorded: "timeout_event now kv \<in> set (connectionHistory ?q)"
    if "kv \<in> set ?idle" "2 * length ?idle \<le> 1000" for kv
  proof -
    have "length ?new \<le> 1000" using that(2) by simp
    from set_keep_last [OF this, of "connectionHistory ?p"] that(1) show ?thesis
      unfolding h by auto
  qed
  have each: "if stale now (connectionTimeout cfg) kv
          then getConnection (fst kv) ?q = None
             \<and> event (timeout_event now kv) = Timeout
             \<and> connectionId (timeout_event now kv) = fst kv
             \<and> (2 * length ?idle \<le> 1000 \<longrightarrow> timeout_event now kv \<in> set (connectionHistory ?q))
          else getConnection (fst kv) ?q = Some (snd kv)"
    if "kv \<in> set (connections ?p)" for kv
    using cleanup_member [OF d that, of now clock] recorded [of kv] that
    by (simp add: cfg timeout_event_def)
  have count: "fst (cleanupInactiveConnections now clock ?p) = length ?idle"
    using cleanup_count [of now clock ?p] by (simp add: cfg)
  have left: "connections ?q = filter (\<lambda>kv. \<not> stale now (connectionTimeout cfg) kv) (connections ?p)"
    using cleanup_connections [OF d, of now clock] by (simp add: cfg)
  have all: "\<forall>kv \<in> set (connections ?p).
          if stale now (connectionTimeout cfg) kv
          then getConnection (fst kv) ?q = None
             \<and> event (timeout_event now kv) = Timeout
             \<and> connectionId (timeout_event now kv) = fst kv
             \<and> (2 * length ?idle \<le> 1000 \<longrightarrow> timeout_event now kv \<in> set (connectionHistory ?q))
          else getConnection (fst kv) ?q = Some (snd kv)"
    using each by blast
  have client: "\<forall>cid t. getConnection cid ?p \<noteq> None \<longrightarrow>
          event (last (connectionHistory (snd (removeConnection cid t ?p)))) = Disconnected"
    using removeConnection_present_last by blast
  have kinds: "Timeout \<noteq> Disconnected" by simp
  show ?thesis
    unfolding Let_def by (intro conjI count left h all client kinds)
qed

subsection \<open>The properties on concrete pools\<close>

lemmas pool_eval =
  calls.simps call.simps new_pool_def example_config_def example_connection_def
  addConnection_def removeConnection_def addConnectionEvent_def map_size_def map_get_def
  map_delete_def getConnection_def close_response_def Let_def


text \<open>
  An unknown id \<open>b\<close>, and a known id \<open>a\<close> whose \<open>response.end()\<close> throws.
\<close>

theorem removeConnection_idempotent_witness:
  "getConnection ''b'' (calls [AddConnection (example_connection ''a'' 0) 0] (new_pool (example_config 1))) = None
   \<and> removeConnection ''b'' 5 (calls [AddConnection (example_connection ''a'' 0) 0] (new_pool (example_config 1))) =
       (None, calls [AddConnection (example_connection ''a'' 0) 0] (new_pool (example_config 1)))
   \<and> close_response (example_connection ''a'' 0) \<noteq> None
   \<and> fst (removeConnection ''a'' 5 (calls [AddConnection (example_connection ''a'' 0) 0] (new_pool (example_config 1)))) = None
   \<and> connections (snd (removeConnection ''a'' 5
        (calls [AddConnection (example_connection ''a'' 0) 0] (new_pool (example_config 1))))) = []"
  using removeConnection_idempotent
          [of "''b''" 6 5 "calls [AddConnection (example_connection ''a'' 0) 0] (new_pool (example_config 1))"]
        removeConnection_idempotent
          [of "''a''" 6 5 "calls [AddConnection (example_connection ''a'' 0) 0] (new_pool (example_config 1))"]
  by (simp add: pool_eval)

text \<open>
  A full pool of capacity 1, and a pool after \<open>shutdown\<close>.
\<close>

theorem addConnection_failure_effects_witness:
  "fst (addConnection (example_connection ''b'' 1) 1
         (calls [AddConnection (example_connection ''a'' 0) 0] (new_pool (example_config 1)))) \<noteq> None
   \<and> connections (snd (addConnection (example_connection ''b'' 1) 1
         (calls [AddConnection (example_connection ''a'' 0) 0] (new_pool (example_config 1))))) =
       [(''a'', example_connection ''a'' 0)]
   \<and> map event (connectionHistory (snd (addConnection (example_connection ''b'' 1) 1
         (calls [AddConnection (example_connection ''a'' 0) 0] (new_pool (example_config 1)))))) =
       [Connected, ErrorEvent]
   \<and> fst (addConnection (example_connection ''b'' 1) 1
         (calls [Shutdown (\<lambda>i. 2)] (new_pool (example_config 1)))) \<noteq> None
   \<and> snd (addConnection (example_connection ''b'' 1) 1
         (calls [Shutdown (\<lambda>i. 2)] (new_pool (example_config 1)))) =
       calls [Shutdown (\<lambda>i. 2)] (new_pool (example_config 1))"
  using addConnection_failure_effects
          [of "example_connection ''b'' 1" 1
              "calls [AddConnection (example_connection ''a'' 0) 0] (new_pool (example_config 1))"]
        addConnection_failure_effects
          [of "example_connection ''b'' 1" 1 "calls [Shutdown (\<lambda>i. 2)] (new_pool (example_config 1))"]
  by (simp add: pool_eval shutdown_def map_keys_def)

text \<open>
  Two connections whose \<open>response.end()\<close> throws; both are removed.
\<close>

theorem shutdown_drains_witness:
  "map_keys (connections
       (calls [AddConnection (example_connection ''a'' 0) 0, AddConnection (example_connection ''b'' 3) 3]
          (new_pool (example_config 2)))) = [''a'', ''b'']
   \<and> close_response (example_connection ''a'' 0) \<noteq> None
   \<and> shutdown (\<lambda>i. 7)
       (calls [AddConnection (example_connection ''a'' 0) 0, AddConnection (example_connection ''b'' 3) 3]
          (new_pool (example_config 2))) =
      (None,
       \<lparr>connections = [],
        connectionHistory =
          [\<lparr>connectionId = ''a'', event = Connected, timestamp = 0, details = Some (ClientDetails ''curl'')\<rparr>,
           \<lparr>connectionId = ''b'', event = Connected, timestamp = 3, details = Some (ClientDetails ''curl'')\<rparr>,
           \<lparr>connectionId = ''a'', event = Disconnected, timestamp = 7, details = None\<rparr>,
           \<lparr>connectionId = ''b'', event = Disconnected, timestamp = 7, details = None\<rparr>],
        config = example_config 2, cleanupInterval = False, isShuttingDown = True\<rparr>)
   \<and> fst (addConnection (example_connection ''c'' 8) 8
       (snd (shutdown (\<lambda>i. 7)
         (calls [AddConnection (example_connection ''a'' 0) 0, AddConnection (example_connection ''b'' 3) 3]
            (new_pool (example_config 2)))))) = Some (Error ''Connection pool is shutting down'')"
  using shutdown_drains
          [of "\<lambda>i. 7"
              "calls [AddConnection (example_connection ''a'' 0) 0, AddConnection (example_connection ''b'' 3) 3]
                 (new_pool (example_config 2))"
              "example_connection ''c'' 8" 8 0 "[]"]
  by (simp add: pool_eval shutdown_def map_keys_def)

text \<open>
  Timeout 500, sweep at 1000: \<open>a\<close>, last active at 0, is removed; \<open>b\<close>, last active
  at 900, stays.
\<close>

theorem cleanup_removes_stale_connections_witness:
  "(''a'', example_connection ''a'' 0) \<in> set (connections
       (calls [AddConnection (example_connection ''a'' 0) 0, AddConnection (example_connection ''b'' 900) 900]
          (new_pool (example_config 2))))
   \<and> stale 1000 (connectionTimeout (example_config 2)) (''a'', example_connection ''a'' 0)
   \<and> getConnection ''a'' (snd (cleanupInactiveConnections 1000 (\<lambda>i. 1001)
       (calls [AddConnection (example_connection ''a'' 0) 0, AddConnection (example_connection ''b'' 900) 900]
          (new_pool (example_config 2))))) = None
   \<and> timeout_event 1000 (''a'', example_connection ''a'' 0) \<in> set (connectionHistory
       (snd (cleanupInactiveConnections 1000 (\<lambda>i. 1001)
       (calls [AddConnection (example_connection ''a'' 0) 0, AddConnection (example_connection ''b'' 900) 900]
          (new_pool (example_config 2))))))
   \<and> \<not> stale 1000 (connectionTimeout (example_config 2)) (''b'', example_connection ''b'' 900)
   \<and> getConnection ''b'' (snd (cleanupInactiveConnections 1000 (\<lambda>i. 1001)
       (calls [AddConnection (example_connection ''a'' 0) 0, AddConnection (example_connection ''b'' 900) 900]
          (new_pool (example_config 2))))) = Some (example_connection ''b'' 900)"
proof -
  let ?p = "calls [AddConnection (example_connection ''a'' 0) 0, AddConnection (example_connection ''b'' 900) 900]
          (new_pool (example_config 2))"
  have m: "connections ?p = [(''a'', example_connection ''a'' 0), (''b'', example_connection ''b'' 900)]"
    by (simp add: pool_eval)
  have a: "stale 1000 (connectionTimeout (example_config 2)) (''a'', example_connection ''a'' 0)"
    and b: "\<not> stale 1000 (connectionTimeout (example_config 2)) (''b'', example_connection ''b'' 900)"
    by (simp_all add: stale_def example_config_def example_connection_def)
  note sweep = cleanup_removes_stale_connections
            [of "[AddConnection (example_connection ''a'' 0) 0, AddConnection (example_connection ''b'' 900) 900]"
                "example_config 2" 1000 "\<lambda>i. 1001", unfolded Let_def m]
  show ?thesis
    using sweep a b by (auto simp: m simp del: calls.simps)
qed

section \<open>Properties of the tool wrappers\<close>

subsection \<open>Retry\<close>

lemma backoff_from_step: "i < j \<Longrightarrow>
  backoff_from d i j = [Invoke i, Delay (d * 2 ^ i)] @ backoff_from d (Suc i) j"
  by (simp add: backoff_from_def upt_conv_Cons)

lemma backoff_from_last: "backoff_from d j j = [Invoke j]"
  by (simp add: backoff_from_def)

lemma invocations_backoff_from: "i \<le> j \<Longrightarrow> invocations (backoff_from d i j) = Suc (j - i)"
proof (induction "j - i" arbitrary: i)
  case 0
  then show ?case by (simp add: backoff_from_last invocations_def)
next
  case (Suc n)
  then have lt: "i < j" by simp
  have "invocations (backoff_from d (Suc i) j) = Suc (j - Suc i)"
    using Suc by (intro Suc.hyps) simp_all
  then show ?case using lt by (simp add: backoff_from_step invocations_def)
qed

lemma backoff_trace_3: "backoff_trace d 3 = [Invoke 0, Delay (d * 2 ^ 0), Invoke 1, Delay (d * 2 ^ 1), Invoke 2]"
  by (simp add: backoff_trace_def backoff_from_def upt_rec)

lemma backoff_trace_2: "backoff_trace d 2 = [Invoke 0, Delay d, Invoke 1]"
  by (simp add: backoff_trace_def backoff_from_def upt_rec)

lemma retry_loop_failures:
  assumes "i \<le> m" "m < maxRetries"
    and "\<forall>k. i \<le> k \<and> k < m \<longrightarrow>
           operation k = Rejected (errs k) \<and> as_Error (errs k) = Inr (kept k)"
  shows "retry_loop operation maxRetries delayMs (Suc i) lastError trace =
         retry_loop operation maxRetries delayMs (Suc m)
           (if i = m then lastError else Some (kept (m - 1)))
           (trace @ concat (map (\<lambda>k. [Invoke k, Delay (delayMs * 2 ^ k)]) [i..<m]))"
  using assms
proof (induction "m - i" arbitrary: i lastError trace)
  case 0
  then show ?case by simp
next
  case (Suc n)
  then have lt: "i < m" by simp
  have rej: "operation i = Rejected (errs i)" "as_Error (errs i) = Inr (kept i)"
    using Suc.prems(3) lt by simp_all
  have step: "retry_loop operation maxRetries delayMs (Suc i) lastError trace =
      retry_loop operation maxRetries delayMs (Suc (Suc i)) (Some (kept i))
         (trace @ [Invoke i, Delay (delayMs * 2 ^ i)])"
    using lt Suc.prems(2) rej by (subst retry_loop.simps) simp
  have ih: "retry_loop operation maxRetries delayMs (Suc (Suc i)) (Some (kept i))
         (trace @ [Invoke i, Delay (delayMs * 2 ^ i)]) =
       retry_loop operation maxRetries delayMs (Suc m)
           (if Suc i = m then Some (kept i) else Some (kept (m - 1)))
           ((trace @ [Invoke i, Delay (delayMs * 2 ^ i)])
              @ concat (map (\<lambda>k. [Invoke k, Delay (delayMs * 2 ^ k)]) [Suc i..<m]))"
    using Suc.hyps(2) lt Suc.prems by (intro Suc.hyps(1)) auto
  have le: "(if Suc i = m then Some (kept i) else Some (kept (m - 1)))
      = Some (kept (m - 1))" by auto
  show ?case using lt by (simp add: step ih le upt_conv_Cons)
qed

lemma withRetry_succeeds_after_failures:
  assumes "m < maxRetries"
    and "\<forall>k < m. operation k = Rejected (errs k) \<and> as_Error (errs k) = Inr (kept k)"
    and "operation m = Resolved v"
  shows "withRetry operation maxRetries delayMs = (Resolved v, backoff_from delayMs 0 m)"
proof -
  have "retry_loop operation maxRetries delayMs (Suc 0) None [] =
         retry_loop operation maxRetries delayMs (Suc m)
           (if 0 = m then None else Some (kept (m - 1)))
           ([] @ concat (map (\<lambda>k. [Invoke k, Delay (delayMs * 2 ^ k)]) [0..<m]))"
    using assms by (intro retry_loop_failures) auto
  also have "\<dots> = (Resolved v, backoff_from delayMs 0 m)"
    using assms by (subst retry_loop.simps) (simp add: backoff_from_def)
  finally show ?thesis by (simp add: withRetry_def)
qed

text \<open>
  A rejection on which \<open>String\<close> throws ends the loop: \<open>withRetry\<close> rejects with the
  \<open>TypeError\<close> after that call, without a further delay or call.
\<close>

lemma withRetry_conversion_throws:
  assumes "m < maxRetries"
    and "\<forall>k < m. operation k = Rejected (errs k) \<and> as_Error (errs k) = Inr (kept k)"
    and "operation m = Rejected e" "as_Error e = Inl exn"
  shows "withRetry operation maxRetries delayMs = (Rejected exn, backoff_from delayMs 0 m)"
proof -
  have "retry_loop operation maxRetries delayMs (Suc 0) None [] =
         retry_loop operation maxRetries delayMs (Suc m)
           (if 0 = m then None else Some (kept (m - 1)))
           ([] @ concat (map (\<lambda>k. [Invoke k, Delay (delayMs * 2 ^ k)]) [0..<m]))"
    using assms by (intro retry_loop_failures) auto
  also have "\<dots> = (Rejected exn, backoff_from delayMs 0 m)"
    using assms by (subst retry_loop.simps) (simp add: backoff_from_def)
  finally show ?thesis by (simp add: withRetry_def)
qed

lemma withRetry_all_fail:
  assumes "0 < maxRetries"
    and "\<forall>k < maxRetries. operation k = Rejected (errs k) \<and> as_Error (errs k) = Inr (kept k)"
  shows "withRetry operation maxRetries delayMs =
           (Rejected (kept (maxRetries - 1)), backoff_trace delayMs maxRetries)"
proof -
  let ?m = "maxRetries - 1"
  have "retry_loop operation maxRetries delayMs (Suc 0) None [] =
         retry_loop operation maxRetries delayMs (Suc ?m)
           (if 0 = ?m then None else Some (kept (?m - 1)))
           ([] @ concat (map (\<lambda>k. [Invoke k, Delay (delayMs * 2 ^ k)]) [0..<?m]))"
    using assms by (intro retry_loop_failures) auto
  also have "\<dots> = (Rejected (kept ?m), backoff_trace delayMs maxRetries)"
    using assms by (subst retry_loop.simps) (simp add: backoff_from_def backoff_trace_def)
  finally show ?thesis by (simp add: withRetry_def)
qed

lemma withRetry_zero: "withRetry operation 0 delayMs = (Rejected (ThrownValue ''undefined''), [])"
  by (simp add: withRetry_def retry_loop.simps)

lemma retry_loop_outcome:
  "retry_loop operation n d a le tr = (out, tr') \<Longrightarrow> a \<le> n \<Longrightarrow> 0 < a \<Longrightarrow>
     (case out of
        Resolved v \<Rightarrow> \<exists>k. operation k = Resolved v
      | Pending \<Rightarrow> \<exists>k. operation k = Pending
      | Rejected x \<Rightarrow>
          \<exists>k e. operation k = Rejected e \<and> (as_Error e = Inr x \<or> as_Error e = Inl x))"
proof (induction operation n d a le tr rule: retry_loop.induct)
  case (1 operation maxRetries delayMs attempt lastError trace)
  show ?case
  proof (cases "operation (attempt - 1)")
    case (Resolved v)
    have "out = Resolved v"
      using "1.prems" Resolved by (subst (asm) retry_loop.simps) simp
    then show ?thesis using Resolved by auto
  next
    case (Rejected error)
    show ?thesis
    proof (cases "as_Error error")
      case (Inl exn)
      have "out = Rejected exn"
        using "1.prems" Rejected Inl by (subst (asm) retry_loop.simps) simp
      then show ?thesis using Rejected Inl by auto
    next
      case (Inr e)
      show ?thesis
      proof (cases "attempt = maxRetries")
        case True
        have "out = Rejected e"
          using "1.prems" Rejected Inr True by (subst (asm) retry_loop.simps) simp
        then show ?thesis using Rejected Inr by auto
      next
        case False
        have "retry_loop operation maxRetries delayMs (attempt + 1) (Some e)
                   (trace @ [Invoke (attempt - 1), Delay (delayMs * 2 ^ (attempt - 1))]) = (out, tr')"
          using "1.prems" Rejected Inr False by (subst (asm) retry_loop.simps) simp
        then show ?thesis using "1.prems" False Rejected Inr
          by (intro "1.IH" [of error e]) simp_all
      qed
    qed
  next
    case Pending
    have "out = Pending"
      using "1.prems" Pending by (subst (asm) retry_loop.simps) simp
    then show ?thesis using Pending by auto
  qed
qed

lemma as_Error_Inr:
  "as_Error e = Inr x \<Longrightarrow>
   (\<forall>s. e = ThrownValue s \<longrightarrow> x = ThrownError s None) \<and> ((\<forall>s. e \<noteq> ThrownValue s) \<longrightarrow> x = e)"
  by (cases e) auto

lemma as_Error_Inl:
  "as_Error e = Inl x \<Longrightarrow>
   e = ThrownUnprintable \<and> x = ThrownError ''Cannot convert object to primitive value'' None"
  by (cases e) (simp_all add: TypeError_def)




text \<open>
  \<^bold>\<open>C3\<close>, as the code has it. \<open>withRetry\<close> does not look at the kind of a failure:
  an operation that fails with the validation error on each of its first
  \<open>maxRetries > 0\<close> calls is called exactly \<open>maxRetries\<close> times, with the backoff delays
  in between, and the last error is thrown.
\<close>

theorem withRetry_retries_every_failure:
  assumes "0 < maxRetries"
    and "\<forall>k < maxRetries. operation k = Rejected (ThrownMCP (validation_error toolName args))"
  shows "withRetry operation maxRetries delayMs =
           (Rejected (ThrownMCP (validation_error toolName args)), backoff_trace delayMs maxRetries)
         \<and> invocations (snd (withRetry operation maxRetries delayMs)) = maxRetries"
  using withRetry_all_fail [OF assms(1), of operation "\<lambda>k. ThrownMCP (validation_error toolName args)"
      "\<lambda>k. ThrownMCP (validation_error toolName args)" delayMs]
    assms
  by (simp add: backoff_trace_def invocations_backoff_from)

text \<open>
  Two attempts: the operation is called twice.
\<close>

theorem withRetry_retries_every_failure_witness:
  "(0::nat) < 2
   \<and> (\<lambda>k. Rejected (ThrownMCP (validation_error ''get_workflow'' JNull)) :: js_value promise) 0 =
         Rejected (ThrownMCP (validation_error ''get_workflow'' JNull))
   \<and> (\<lambda>k. Rejected (ThrownMCP (validation_error ''get_workflow'' JNull)) :: js_value promise) 1 =
         Rejected (ThrownMCP (validation_error ''get_workflow'' JNull))
   \<and> invocations (snd (withRetry
        (\<lambda>k. Rejected (ThrownMCP (validation_error ''get_workflow'' JNull)) :: js_value promise) 2 1000)) = 2"
  using withRetry_retries_every_failure
          [of 2 "\<lambda>k. Rejected (ThrownMCP (validation_error ''get_workflow'' JNull)) :: js_value promise"
              "''get_workflow''" JNull 1000]
  by (simp add: backoff_trace_2 invocations_def)

text \<open>
  \<^bold>\<open>C3\<close>, as stated, fails: an operation that always fails with the validation error
  is called three times under \<open>maxRetries = 3\<close>, not once.
\<close>

theorem withRetry_validation_error_counterexample:
  "withRetry (\<lambda>k. Rejected (ThrownMCP (validation_error ''get_workflow'' (JObject [])))) 3 1000 =
     (Rejected (ThrownMCP (validation_error ''get_workflow'' (JObject []))),
      [Invoke 0, Delay 1000, Invoke 1, Delay 2000, Invoke 2])
   \<and> invocations (snd (withRetry
        (\<lambda>k. Rejected (ThrownMCP (validation_error ''get_workflow'' (JObject [])))) 3 1000)) \<noteq> 1"
  by (simp add: withRetry_def retry_loop.simps invocations_def)

subsection \<open>Timeout\<close>

text \<open>
  Without the clock: the promise \<open>withTimeout\<close> returns always settles, as the
  operation when that has settled before the timer fires.
\<close>

lemma withTimeout_settles: "withTimeout operation timeoutMs \<noteq> Pending"
  by (simp add: withTimeout_def split: promise.splits)

lemma withTimeout_settled:
  "operation \<noteq> Pending \<Longrightarrow> withTimeout operation timeoutMs = operation"
  by (simp add: withTimeout_def split: promise.splits)

text \<open>
  The two definitions of \<open>withTimeout\<close> agree: the outcome with the clock is the one
  without it, on the state the operation is in when the timer fires.
\<close>

lemma withTimeout_projection:
  "outcome (withTimeout_timed operation timeoutMs) =
     withTimeout (state_at operation (setTimeout_delay timeoutMs)) timeoutMs"
proof (cases operation)
  case (Settles t r)
  then show ?thesis
    by (cases r) (simp_all add: withTimeout_timed_def timeoutPromise_def withTimeout_def)
next
  case Never
  then show ?thesis
    by (simp add: withTimeout_timed_def timeoutPromise_def withTimeout_def)
qed

lemma setTimeout_delay_in_range:
  "1 \<le> ms \<Longrightarrow> ms \<le> 2147483647 \<Longrightarrow> setTimeout_delay ms = ms"
  by (simp add: setTimeout_delay_def)

text \<open>
  \<^bold>\<open>C5\<close>, as the code has it. For a duration from 1 to \<open>2 ^ 31 - 1\<close> milliseconds:
  an operation that settles before the duration has elapsed gives \<open>withTimeout\<close> its
  own outcome, at its own time; otherwise, also when the operation never settles,
  \<open>withTimeout\<close> rejects with the timeout error when exactly the duration has elapsed.
\<close>

theorem withTimeout_timed_in_range:
  "1 \<le> timeoutMs \<and> timeoutMs \<le> 2147483647 \<longrightarrow>
     (operation = Settles t r \<and> t < timeoutMs \<longrightarrow>
        withTimeout_timed operation timeoutMs = Settles t r)
   \<and> (operation = Settles t r \<and> timeoutMs \<le> t \<longrightarrow>
        withTimeout_timed operation timeoutMs = Settles timeoutMs (Inl (timeout_error timeoutMs)))
   \<and> (operation = Never \<longrightarrow>
        withTimeout_timed operation timeoutMs = Settles timeoutMs (Inl (timeout_error timeoutMs)))"
  by (simp add: withTimeout_timed_def timeoutPromise_def setTimeout_delay_def)

text \<open>
  A timeout of 30 seconds on operations that take 200 ms, 40 seconds, and for ever.
\<close>

theorem withTimeout_timed_in_range_witness:
  "(1::nat) \<le> 30000 \<and> (30000::nat) \<le> 2147483647
   \<and> (200::nat) < 30000
   \<and> withTimeout_timed (Settles 200 (Inr (JNumber 42))) 30000 = Settles 200 (Inr (JNumber 42))
   \<and> (30000::nat) \<le> 40000
   \<and> withTimeout_timed (Settles 40000 (Inr (JNumber 42))) 30000 =
       Settles 30000 (Inl (timeout_error 30000))
   \<and> withTimeout_timed (Never :: js_value timed) 30000 = Settles 30000 (Inl (timeout_error 30000))"
  using withTimeout_timed_in_range [of 30000 "Settles 200 (Inr (JNumber 42))" 200 "Inr (JNumber 42)"]
    withTimeout_timed_in_range [of 30000 "Settles 40000 (Inr (JNumber 42))" 40000 "Inr (JNumber 42)"]
    withTimeout_timed_in_range [of 30000 "Never :: js_value timed" 0 "Inr (JNumber 42)"]
  by simp

text \<open>
  \<^bold>\<open>C5\<close>, as stated, fails. With a duration of \<open>2 ^ 31\<close> milliseconds the timer
  runs for 1 millisecond: an operation that takes 200 ms is rejected with the timeout
  error after 1 ms, long before the duration has elapsed. With a duration of 0 the timer
  also runs for 1 millisecond, and an operation that has settled at once wins the race
  although no time is left.
\<close>

theorem withTimeout_timed_counterexample:
  "(200::nat) < 2147483648
   \<and> withTimeout_timed (Settles 200 (Inr (JNumber 42))) 2147483648 =
       Settles 1 (Inl (timeout_error 2147483648))
   \<and> withTimeout_timed (Never :: js_value timed) 2147483648 =
       Settles 1 (Inl (timeout_error 2147483648))
   \<and> withTimeout_timed (Settles 0 (Inr (JNumber 42))) 0 = Settles 0 (Inr (JNumber 42))"
  by (simp add: withTimeout_timed_def timeoutPromise_def setTimeout_delay_def)

subsection \<open>Validation\<close>

lemma validateToolArgs_invalid:
  "\<not> validator args \<Longrightarrow>
   validateToolArgs args validator toolName = Inl (validation_error toolName args)"
  by (simp add: validateToolArgs_def validation_error_def)

text \<open>
  \<^bold>\<open>C4\<close>, as the code has it. When the validator rejects arguments that
  \<open>JSON.stringify\<close> accepts, the tool resolves with the error response of
  \<open>TOOL_EXECUTION_ERROR\<close>, whose details are the tool name, the fixed text
  \<open>Invalid arguments provided\<close> and the arguments as a whole. No effect happens: the
  handler is not called and nothing is retried.
\<close>

theorem validation_failure_short_circuits:
  assumes "\<not> validator args" "json_serialisable args"
  shows "createSafeTool toolName validator handler args =
     (Resolved
        \<lparr>content_text = Text (''Error in '' @ toolName @ '': Tool execution failed: '' @ toolName),
         isError = True,
         metadata = ErrorInfo ''TOOL_EXECUTION_ERROR''
                      (ToolExecutionDetails toolName ''Invalid arguments provided'' args)\<rparr>,
      [])"
  using assms
  by (simp add: createSafeTool_def validateToolArgs_def logToolExecution_def
      ToolExecutionError_def createErrorResponse_def)

text \<open>
  \<open>get_workflow\<close> called with \<open>{id: 7}\<close>, which lacks \<open>workflowId\<close>.
\<close>

theorem validation_failure_short_circuits_witness:
  "\<not> isGetWorkflowArgs (JObject [(''id'', JNumber 7)])
   \<and> json_serialisable (JObject [(''id'', JNumber 7)])
   \<and> createSafeTool ''get_workflow'' isGetWorkflowArgs failing_api_call (JObject [(''id'', JNumber 7)]) =
     (Resolved
        \<lparr>content_text = Text ''Error in get_workflow: Tool execution failed: get_workflow'',
         isError = True,
         metadata = ErrorInfo ''TOOL_EXECUTION_ERROR''
                      (ToolExecutionDetails ''get_workflow'' ''Invalid arguments provided''
                         (JObject [(''id'', JNumber 7)]))\<rparr>,
      [])"
  using validation_failure_short_circuits
          [of isGetWorkflowArgs "JObject [(''id'', JNumber 7)]" "''get_workflow''" failing_api_call]
  by (simp add: isGetWorkflowArgs_def)

text \<open>
  \<^bold>\<open>C4\<close>, as stated, fails: \<open>{}\<close> lacks \<open>workflowId\<close> for one guard and
  \<open>name\<close> for the other; the details name neither field, and the two guards give the
  same response.
\<close>

theorem validation_details_counterexample:
  "\<not> isGetWorkflowArgs (JObject []) \<and> \<not> isCreateWorkflowArgs (JObject [])
   \<and> fst (createSafeTool ''get_workflow'' isGetWorkflowArgs failing_api_call (JObject [])) =
       Resolved
        \<lparr>content_text = Text ''Error in get_workflow: Tool execution failed: get_workflow'',
         isError = True,
         metadata = ErrorInfo ''TOOL_EXECUTION_ERROR''
                      (ToolExecutionDetails ''get_workflow'' ''Invalid arguments provided'' (JObject []))\<rparr>
   \<and> createSafeTool ''get_workflow'' isGetWorkflowArgs failing_api_call (JObject []) =
       createSafeTool ''get_workflow'' isCreateWorkflowArgs failing_api_call (JObject [])"
  by (simp add: createSafeTool_def validateToolArgs_def logToolExecution_def
      ToolExecutionError_def createErrorResponse_def isGetWorkflowArgs_def isCreateWorkflowArgs_def)

subsection \<open>The catch clause\<close>

lemma safe_tool_catch_as_Error:
  "as_Error e = Inr x \<Longrightarrow> safe_tool_catch toolName args x = safe_tool_catch toolName args e"
  by (cases e) (auto simp: safe_tool_catch_def createMCPError_def)

lemma safe_tool_catch_plain_Error:
  "json_serialisable args \<Longrightarrow> \<exists>r. safe_tool_catch toolName args (ThrownError msg None) = Resolved r"
  by (simp add: safe_tool_catch_def createMCPError_def logToolExecution_def ToolExecutionError_def)

text \<open>
  Where the arguments can be serialised and the \<open>catch\<close> clause handles every error
  the handler rejects with, the tool resolves with a response, also when the handler
  never settles.
\<close>

lemma createSafeTool_resolves:
  assumes args: "json_serialisable args"
    and handled: "\<forall>k e. handler args k = Rejected e \<longrightarrow> e \<noteq> ThrownUnprintable \<longrightarrow>
                    (\<exists>r. safe_tool_catch toolName args e = Resolved r)"
  shows "\<exists>r. fst (createSafeTool toolName validator handler args) = Resolved r"
proof (cases "validator args")
  case False
  then show ?thesis
    using args
    by (simp add: createSafeTool_def validateToolArgs_def logToolExecution_def
      ToolExecutionError_def)
next
  case True
  let ?op = "\<lambda>k. withTimeout (handler args k) 30000"
  obtain out tr where run: "retry_loop ?op 2 1000 1 None [] = (out, tr)"
    by (cases "retry_loop ?op 2 1000 1 None []")
  have ex: "executeWithResilience (handler args)
       \<lparr>opt_maxRetries = Some 2, opt_timeoutMs = Some 30000, opt_delayMs = None\<rparr> = (out, tr)"
    using run by (simp add: executeWithResilience_def withRetry_def)
  note oc = retry_loop_outcome [OF run]
  show ?thesis
  proof (cases out)
    case (Resolved v)
    show ?thesis
    proof (cases "json_serialisable v")
      case True
      then show ?thesis using \<open>validator args\<close> ex Resolved
        by (simp add: createSafeTool_def validateToolArgs_def logToolExecution_def
            createSuccessResponse_def JSON_stringify_def)
    next
      case False
      then show ?thesis using \<open>validator args\<close> ex Resolved
          safe_tool_catch_plain_Error [OF args, of toolName "''Do not know how to serialize a BigInt''"]
        by (simp add: createSafeTool_def validateToolArgs_def logToolExecution_def
            createSuccessResponse_def JSON_stringify_def TypeError_def)
    qed
  next
    case (Rejected x)
    then obtain k e where ke: "?op k = Rejected e" "as_Error e = Inr x \<or> as_Error e = Inl x"
      using oc by auto
    have "\<exists>r. safe_tool_catch toolName args x = Resolved r"
    proof (cases "as_Error e")
      case (Inl y)
      then have "x = ThrownError ''Cannot convert object to primitive value'' None"
        using ke(2) as_Error_Inl [OF Inl] by auto
      then show ?thesis using safe_tool_catch_plain_Error [OF args] by simp
    next
      case (Inr y)
      then have x: "as_Error e = Inr x" using ke(2) by auto
      then have printable: "e \<noteq> ThrownUnprintable" by auto
      have "\<exists>r. safe_tool_catch toolName args e = Resolved r"
      proof (cases "handler args k")
        case (Resolved v)
        then show ?thesis using ke by (simp add: withTimeout_def)
      next
        case (Rejected e')
        then show ?thesis using ke(1) handled printable by (auto simp: withTimeout_def)
      next
        case Pending
        then show ?thesis using ke(1) safe_tool_catch_plain_Error [OF args]
          by (auto simp: withTimeout_def timeout_error_def)
      qed
      then show ?thesis by (simp add: safe_tool_catch_as_Error [OF x])
    qed
    then show ?thesis using \<open>validator args\<close> ex Rejected
      by (simp add: createSafeTool_def validateToolArgs_def)
  next
    case Pending
    then obtain k where "?op k = Pending" using oc by auto
    then show ?thesis by (simp add: withTimeout_def split: promise.splits)
  qed
qed

text \<open>
  \<^bold>\<open>C2\<close> fails on this input. The handler rejects with an \<open>Error\<close> whose
  \<open>response.data\<close> holds a \<open>bigint\<close>. In the \<open>catch\<close> clause \<open>createMCPError\<close> calls
  \<open>JSON.stringify\<close> on it, which throws a \<open>TypeError\<close>; the promise returned by the
  tool, and the one returned by \<open>safeToolExecution\<close>, rejects with it.
\<close>

theorem createSafeTool_exception_escapes:
  "createSafeTool ''get_workflow'' isGetWorkflowArgs failing_api_call
       (JObject [(''workflowId'', JString ''7'')]) =
     (Rejected (TypeError ''Do not know how to serialize a BigInt''), [Invoke 0, Delay 1000, Invoke 1])
   \<and> safeToolExecution ''get_workflow'' (JObject [(''workflowId'', JString ''7'')])
       (\<lambda>args. Rejected (ThrownError ''Request failed with status code 500''
          (Some (JObject [(''status'', JNumber 500), (''data'', JObject [(''id'', JBigInt 1)])])))) =
     Rejected (TypeError ''Do not know how to serialize a BigInt'')"
  by (simp add: createSafeTool_def validateToolArgs_def isGetWorkflowArgs_def
      executeWithResilience_def withRetry_def retry_loop.simps withTimeout_def failing_api_call_def
      safe_tool_catch_def createMCPError_def JSON_stringify_def safeToolExecution_def)

end
